theory Spec2Isabelle
  imports Complex_Main "HOL-Library.Multiset"
begin

section \<open>Python and NumPy primitives\<close>

text \<open>
  The development embeds \<^verbatim>\<open>general_reduction/reduction_tree/tree_reduction_MPI.py\<close>.
  Python integers are \<^typ>\<open>int\<close> (floor division and a remainder with the sign of the
  divisor, as \<open>div\<close> and \<open>mod\<close> on \<^typ>\<open>int\<close>); Python exceptions are values of
  the type \<open>error\<close>, and a function that can raise returns \<open>error + 'a\<close>.
\<close>

datatype error =
  AssertionError | IndexError | KeyError | ValueError | ZeroDivisionError | UnboundLocalError
  | TypeError

text \<open>\<^verbatim>\<open>range(a, b)\<close>; \<^verbatim>\<open>range(n)\<close> is \<open>py_range 0 n\<close>.\<close>

definition py_range :: "int \<Rightarrow> int \<Rightarrow> int list" where
  "py_range a b = [a..b - 1]"

text \<open>
  \<^verbatim>\<open>np.split(ary, sections)\<close> with an integer \<open>sections\<close>: NumPy first evaluates
  \<^verbatim>\<open>N % sections\<close> (a \<open>ZeroDivisionError\<close> for 0), raises \<open>ValueError\<close> when the
  remainder is not 0 or when \<open>sections\<close> is negative, and otherwise cuts the array into
  \<open>sections\<close> consecutive pieces of \<open>N // sections\<close> elements each.
\<close>

fun equal_sections :: "nat \<Rightarrow> nat \<Rightarrow> 'a list \<Rightarrow> 'a list list" where
  "equal_sections 0 sz xs = []"
| "equal_sections (Suc k) sz xs = take sz xs # equal_sections k sz (drop sz xs)"

definition np_split :: "'a list \<Rightarrow> int \<Rightarrow> error + 'a list list" where
  "np_split ary sections =
     (if sections = 0 then Inl ZeroDivisionError
      else if int (length ary) mod sections \<noteq> 0 then Inl ValueError
      else if sections \<le> 0 then Inl ValueError
      else Inr (equal_sections (nat sections) (nat (int (length ary) div sections)) ary))"

section \<open>TaskPartitioner: \<open>division_tasks\<close>\<close>

text \<open>
  The two branches of the source: an even split when \<open>pool_size\<close> divides \<open>nb_tasks\<close>,
  otherwise \<open>congru\<close> groups cut from the first \<open>div * congru + congru\<close> tasks followed by
  \<open>pool_size - congru\<close> groups cut from the rest. \<^verbatim>\<open>nb_tasks % pool_size\<close> raises
  \<open>ZeroDivisionError\<close> for \<open>pool_size = 0\<close>.
\<close>

definition division_tasks :: "int \<Rightarrow> int \<Rightarrow> error + int list list" where
  "division_tasks nb_tasks pool_size =
     (if pool_size = 0 then Inl ZeroDivisionError
      else if nb_tasks mod pool_size = 0 then np_split (py_range 0 nb_tasks) pool_size
      else
        let div' = nb_tasks div pool_size;
            congru = nb_tasks mod pool_size
        in case np_split (py_range 0 (div' * congru + congru)) congru of
             Inl e \<Rightarrow> Inl e
           | Inr rearranged1 \<Rightarrow>
               (case np_split (py_range (div' * congru + congru) nb_tasks) (pool_size - congru) of
                  Inl e \<Rightarrow> Inl e
                | Inr rearranged2 \<Rightarrow> Inr (rearranged1 @ rearranged2)))"

section \<open>Data model\<close>

text \<open>
  A tree is a NetworkX \<^verbatim>\<open>DiGraph\<close>: its nodes in insertion order (\<^verbatim>\<open>G.nodes\<close>), the
  \<^verbatim>\<open>'stage'\<close> attribute of a node, and its weighted edges in insertion order, each pair
  \<open>(parent, child)\<close> at most once. Node identifiers are natural numbers: they index the
  rows and columns of the transport matrix.
\<close>

type_synonym node = nat

record tree =
  nodes :: "node list"
  stage :: "node \<Rightarrow> int"
  edges :: "((node \<times> node) \<times> real) list"

text \<open>\<^verbatim>\<open>G.successors(n)\<close>, \<^verbatim>\<open>G.predecessors(n)\<close> and \<^verbatim>\<open>H[m][i]['weight']\<close>.\<close>

definition successors :: "tree \<Rightarrow> node \<Rightarrow> node list" where
  "successors T n = [snd (fst e). e \<leftarrow> edges T, fst (fst e) = n]"

definition predecessors :: "tree \<Rightarrow> node \<Rightarrow> node list" where
  "predecessors T n = [fst (fst e). e \<leftarrow> edges T, snd (fst e) = n]"

definition weight :: "tree \<Rightarrow> node \<Rightarrow> node \<Rightarrow> error + real" where
  "weight T m i = (case map_of (edges T) (m, i) of None \<Rightarrow> Inl KeyError | Some w \<Rightarrow> Inr w)"

text \<open>
  NumPy arrays hold exact reals here: float64 rounding, infinities and NaN are outside the
  model. A one-dimensional array is a list; a two-dimensional array carries its number of
  columns (shape \<open>(0, k)\<close> is not shape \<open>(0, 0)\<close>) and its rows. Indexing out of range
  raises \<open>IndexError\<close>; shapes that do not fit raise \<open>ValueError\<close>.
\<close>

type_synonym vec = "real list"

datatype ndarray = NDArray (ncols: nat) (rows: "real list list")

definition shape0 :: "ndarray \<Rightarrow> nat" where
  "shape0 A = length (rows A)"

definition entries :: "ndarray \<Rightarrow> real list" where
  "entries A = concat (rows A)"

definition np_sum :: "ndarray \<Rightarrow> real" where
  "np_sum A = sum_list (entries A)"

definition np_zeros :: "nat \<Rightarrow> nat \<Rightarrow> ndarray" where
  "np_zeros r k = NDArray k (replicate r (replicate k 0))"

definition expand_dims :: "vec \<Rightarrow> ndarray" where
  "expand_dims v = NDArray (length v) [v]"

definition clip :: "ndarray \<Rightarrow> real \<Rightarrow> ndarray" where
  "clip A a_min = NDArray (ncols A) (map (map (max a_min)) (rows A))"

definition divide :: "ndarray \<Rightarrow> real \<Rightarrow> ndarray" where
  "divide A s = NDArray (ncols A) (map (map (\<lambda>x. x / s)) (rows A))"

definition scale :: "ndarray \<Rightarrow> real \<Rightarrow> ndarray" where
  "scale A s = NDArray (ncols A) (map (map (\<lambda>x. x * s)) (rows A))"

text \<open>
  \<^verbatim>\<open>A[i, j]\<close>, \<^verbatim>\<open>A[idx, :]\<close>, \<^verbatim>\<open>A[:, idx]\<close> with index lists (copies), the slice
  \<^verbatim>\<open>A[:, lo:hi]\<close> (clipped to the array, never an error) and
  \<^verbatim>\<open>np.concatenate(As, axis=1)\<close>.
\<close>

definition index2 :: "ndarray \<Rightarrow> nat \<Rightarrow> nat \<Rightarrow> error + real" where
  "index2 A i j = (if i < shape0 A \<and> j < ncols A then Inr (rows A ! i ! j) else Inl IndexError)"

definition take_rows :: "ndarray \<Rightarrow> nat list \<Rightarrow> error + ndarray" where
  "take_rows A idx =
     (if list_all (\<lambda>i. i < shape0 A) idx then Inr (NDArray (ncols A) (map (\<lambda>i. rows A ! i) idx))
      else Inl IndexError)"

definition take_cols :: "ndarray \<Rightarrow> nat list \<Rightarrow> error + ndarray" where
  "take_cols A idx =
     (if list_all (\<lambda>j. j < ncols A) idx
      then Inr (NDArray (length idx) (map (\<lambda>r. map (\<lambda>j. r ! j) idx) (rows A)))
      else Inl IndexError)"

definition slice_cols :: "ndarray \<Rightarrow> nat \<Rightarrow> nat \<Rightarrow> ndarray" where
  "slice_cols A lo hi =
     NDArray (min hi (ncols A) - lo) (map (\<lambda>r. drop lo (take hi r)) (rows A))"

definition concatenate1 :: "ndarray list \<Rightarrow> error + ndarray" where
  "concatenate1 As =
     (case As of
        [] \<Rightarrow> Inl ValueError
      | A # _ \<Rightarrow>
          if list_all (\<lambda>B. shape0 B = shape0 A) As
          then Inr (NDArray (sum_list (map ncols As))
                      (map (\<lambda>i. concat (map (\<lambda>B. rows B ! i) As)) [0..<shape0 A]))
          else Inl ValueError)"

text \<open>\<^verbatim>\<open>np.multiply(A, B)\<close> with NumPy's broadcasting of axes of length 1.\<close>

definition broadcast_dim :: "nat \<Rightarrow> nat \<Rightarrow> nat option" where
  "broadcast_dim a b =
     (if a = b then Some a else if a = 1 then Some b else if b = 1 then Some a else None)"

definition bcast_at :: "ndarray \<Rightarrow> nat \<Rightarrow> nat \<Rightarrow> real" where
  "bcast_at A i j = rows A ! (if shape0 A = 1 then 0 else i) ! (if ncols A = 1 then 0 else j)"

definition np_multiply :: "ndarray \<Rightarrow> ndarray \<Rightarrow> error + ndarray" where
  "np_multiply A B =
     (case (broadcast_dim (shape0 A) (shape0 B), broadcast_dim (ncols A) (ncols B)) of
        (Some r, Some k) \<Rightarrow>
          Inr (NDArray k (map (\<lambda>i. map (\<lambda>j. bcast_at A i j * bcast_at B i j) [0..<k]) [0..<r]))
      | _ \<Rightarrow> Inl ValueError)"


section \<open>Sequencing of statements that can raise\<close>

text \<open>
  \<open>and_then\<close> runs the next statement unless the previous one raised; \<open>for_each\<close> is a
  loop that appends one result per iteration, \<open>fold_err\<close> a loop that updates a state.
  Both stop at the first exception. \<open>first_of xs\<close> is \<^verbatim>\<open>xs[0]\<close>.
\<close>

definition and_then :: "error + 'a \<Rightarrow> ('a \<Rightarrow> error + 'b) \<Rightarrow> error + 'b" where
  "and_then r f = (case r of Inl e \<Rightarrow> Inl e | Inr x \<Rightarrow> f x)"

fun for_each :: "('a \<Rightarrow> error + 'b) \<Rightarrow> 'a list \<Rightarrow> error + 'b list" where
  "for_each f [] = Inr []"
| "for_each f (x # xs) =
     and_then (f x) (\<lambda>y. and_then (for_each f xs) (\<lambda>ys. Inr (y # ys)))"

fun fold_err :: "('a \<Rightarrow> 's \<Rightarrow> error + 's) \<Rightarrow> 'a list \<Rightarrow> 's \<Rightarrow> error + 's" where
  "fold_err f [] s = Inr s"
| "fold_err f (x # xs) s = and_then (f x s) (fold_err f xs)"

definition first_of :: "'a list \<Rightarrow> error + 'a" where
  "first_of xs = (case xs of [] \<Rightarrow> Inl IndexError | x # _ \<Rightarrow> Inr x)"

section \<open>SubtreeReducer: \<open>_loop_subtree_n\<close>\<close>

text \<open>
  The barycenter solvers (\<^verbatim>\<open>MAM\<close>, \<^verbatim>\<open>MAM_MPI\<close>, \<^verbatim>\<open>barycenter_IBP\<close>,
  \<^verbatim>\<open>LP_reduction_nt\<close>) are imported from modules outside the embedded file. They are
  parameters: each field maps the arguments the source passes to the component of the
  result the source reads (\<^verbatim>\<open>resMAM[1]\<close>, \<^verbatim>\<open>resIBP[1]\<close>, \<^verbatim>\<open>res_LP[0]\<close>). Every
  statement below holds for all solvers.
\<close>

record solvers =
  MAM :: "vec list \<Rightarrow> ndarray list \<Rightarrow> real \<Rightarrow> ndarray list"
  MAM_MPI :: "vec list \<Rightarrow> ndarray list \<Rightarrow> real \<Rightarrow> ndarray list"
  barycenter_IBP :: "vec list \<Rightarrow> ndarray \<Rightarrow> real \<Rightarrow> ndarray list"
  LP_reduction_nt :: "ndarray \<Rightarrow> vec list \<Rightarrow> ndarray"

text \<open>The dictionary returned by \<^verbatim>\<open>_loop_subtree_n\<close>, with its keys as fields.\<close>

record subproblem_output =
  Pi_k :: "ndarray list"
  D_ij_t :: "real list"
  ancestor_m :: "node list"
  ancestor_n :: "node list"

text \<open>
  \<^verbatim>\<open>if t > 0: ancestor.append([i for i in T.predecessors(v)][0])\<close>: the parent collected
  for the next stage, an \<open>IndexError\<close> when \<open>v\<close> has no predecessor.
\<close>

definition collect_ancestor :: "int \<Rightarrow> tree \<Rightarrow> node \<Rightarrow> error + node list" where
  "collect_ancestor t T v =
     (if t > 0 then and_then (first_of (predecessors T v)) (\<lambda>a. Inr [a]) else Inr [])"

text \<open>
  One iteration of the first loop over \<open>list_m\<close>: the marginal \<open>p\<close> of \<open>m\<close>, the
  distance block \<open>dist\<close>, the ponderated block \<open>c[i_m]\<close> and the ancestor of \<open>m\<close>.
\<close>

definition subtree_m ::
  "int \<Rightarrow> tree \<Rightarrow> node list \<Rightarrow> ndarray \<Rightarrow> ndarray \<Rightarrow> nat list \<Rightarrow> node \<Rightarrow> node
     \<Rightarrow> error + (vec \<times> ndarray \<times> ndarray \<times> node list)" where
  "subtree_m t H nodesH D_ij Pi children_ni n m =
     (let children_m = successors H m;
          children_mj = [i \<leftarrow> [0..<length nodesH]. nodesH ! i \<in> set children_m]
      in and_then (for_each (weight H m) children_m) (\<lambda>p.
         and_then (take_rows D_ij children_ni) (\<lambda>dist0.
         and_then (take_cols dist0 children_mj) (\<lambda>dist.
         and_then (index2 Pi n m) (\<lambda>Pi_nm.
         and_then (collect_ancestor t H m) (\<lambda>anc.
         Inr (p, dist, scale dist Pi_nm, anc)))))))"

text \<open>
  The running counter \<open>acc\<close> of the IBP and LP branches before iteration \<open>i_m\<close>, and the
  marginals embedded into the shared support for IBP.
\<close>

definition offset :: "vec list \<Rightarrow> nat \<Rightarrow> nat" where
  "offset b i_m = sum_list (map length (take i_m b))"

definition embed_marginals :: "vec list \<Rightarrow> vec list" where
  "embed_marginals b =
     (let sumS = sum_list (map length b)
      in map (\<lambda>i_m. replicate (offset b i_m) 0 @ b ! i_m
                      @ replicate (sumS - (offset b i_m + length (b ! i_m))) 0)
           [0..<length b])"

text \<open>
  The \<^verbatim>\<open>if len(children_n) == 1 ... elif len(children_n) > 1 ...\<close> block. The result is
  \<open>None\<close> when no branch assigns \<open>Pi_k\<close>: the local variable stays unbound.
\<close>

definition solve_subtree ::
  "solvers \<Rightarrow> string \<Rightarrow> real \<Rightarrow> real \<Rightarrow> int \<Rightarrow> node list \<Rightarrow> vec list \<Rightarrow> ndarray list
     \<Rightarrow> error + ndarray list option" where
  "solve_subtree S method lambda_IBP rho pool_sizeMAM children_n b c =
     (if length children_n = 1 then Inr (Some (map expand_dims b))
      else if length children_n > 1 then
        (if method = ''MAM'' then
           (if pool_sizeMAM > 1 then Inr (Some (MAM_MPI S b c rho))
            else Inr (Some (MAM S b c rho)))
         else if method = ''IBP'' then
           and_then (concatenate1 c) (\<lambda>c'.
           let Pi_ibp = barycenter_IBP S (embed_marginals b) c' lambda_IBP
           in and_then
                (for_each (\<lambda>i_m. if i_m < length Pi_ibp
                     then Inr (slice_cols (Pi_ibp ! i_m) (offset b i_m) (offset b i_m + length (b ! i_m)))
                     else Inl IndexError) [0..<length b])
                (\<lambda>plans. Inr (Some plans)))
         else if method = ''LP'' then
           and_then (concatenate1 c) (\<lambda>c_lp.
           let Pi_lp = LP_reduction_nt S c_lp b
           in Inr (Some (map (\<lambda>i_m. slice_cols Pi_lp (offset b i_m) (offset b i_m + length (b ! i_m)))
                          [0..<length b])))
         else Inr None)
      else Inr None)"

text \<open>
  The last loop: \<^verbatim>\<open>Pi_k[i_m] = Pi_k[i_m].clip(epsilon)\<close>,
  \<^verbatim>\<open>Pi_k[i_m] = Pi_k[i_m] / np.sum(Pi_k[i_m])\<close>, then the local distance
  \<^verbatim>\<open>D_ij_t[i_m] = np.sum(np.multiply(Pi_k[i_m], dist_matrices[i_m]))\<close>.
\<close>

definition stabilize :: "ndarray \<Rightarrow> real \<Rightarrow> ndarray" where
  "stabilize P epsilon = (let Q = clip P epsilon in divide Q (np_sum Q))"

definition stabilize_m ::
  "real \<Rightarrow> ndarray list \<Rightarrow> nat \<Rightarrow> ndarray list \<times> real list \<Rightarrow> error + ndarray list \<times> real list" where
  "stabilize_m epsilon dist_matrices i_m st =
     (case st of (plans, dists) \<Rightarrow>
        if i_m < length plans then
          (let Q = stabilize (plans ! i_m) epsilon
           in and_then (np_multiply Q (dist_matrices ! i_m)) (\<lambda>prod.
              Inr (plans[i_m := Q], dists[i_m := np_sum prod])))
        else Inl IndexError)"

text \<open>
  \<^verbatim>\<open>_loop_subtree_n\<close>. Reading the unbound \<open>Pi_k\<close>, in the last loop or in the
  \<^verbatim>\<open>return\<close>, raises \<open>UnboundLocalError\<close>.
\<close>

definition loop_subtree_n ::
  "solvers \<Rightarrow> int \<Rightarrow> tree \<Rightarrow> tree \<Rightarrow> node list \<Rightarrow> node list \<Rightarrow> node list \<Rightarrow> ndarray \<Rightarrow> ndarray
     \<Rightarrow> string \<Rightarrow> real \<Rightarrow> real \<Rightarrow> real \<Rightarrow> int \<Rightarrow> node \<Rightarrow> error + subproblem_output" where
  "loop_subtree_n S t G H nodesG nodesH list_m D_ij Pi method lambda_IBP rho epsilon pool_sizeMAM n =
     (let children_n = successors G n;
          children_ni = [j \<leftarrow> [0..<length nodesG]. nodesG ! j \<in> set children_n]
      in and_then (for_each (subtree_m t H nodesH D_ij Pi children_ni n) list_m) (\<lambda>per_m.
         let b = map fst per_m;
             dist_matrices = map (fst \<circ> snd) per_m;
             c = map (fst \<circ> snd \<circ> snd) per_m;
             anc_m = concat (map (snd \<circ> snd \<circ> snd) per_m)
         in and_then (collect_ancestor t G n) (\<lambda>anc_n.
            and_then (solve_subtree S method lambda_IBP rho pool_sizeMAM children_n b c) (\<lambda>chosen.
            case chosen of
              None \<Rightarrow> Inl UnboundLocalError
            | Some plans \<Rightarrow>
                and_then (fold_err (stabilize_m epsilon dist_matrices) [0..<length list_m]
                            (plans, replicate (length list_m) 0))
                  (\<lambda>st. Inr \<lparr>Pi_k = fst st, D_ij_t = snd st,
                                ancestor_m = anc_m, ancestor_n = anc_n\<rparr>)))))"

section \<open>ReductionDriver: the forward rebuild pass\<close>

text \<open>
  \<^verbatim>\<open>Pi[i, j] = v\<close> on the dense transport matrix (an \<open>IndexError\<close> out of range) and
  the list \<^verbatim>\<open>[i for i in T.nodes if T.nodes[i]['stage'] == s]\<close>.
\<close>

definition setitem2 :: "ndarray \<Rightarrow> nat \<Rightarrow> nat \<Rightarrow> real \<Rightarrow> error + ndarray" where
  "setitem2 A i j v =
     (if i < shape0 A \<and> j < ncols A
      then Inr (NDArray (ncols A) ((rows A)[i := (rows A ! i)[j := v]]))
      else Inl IndexError)"

definition nodes_at_stage :: "tree \<Rightarrow> int \<Rightarrow> node list" where
  "nodes_at_stage T s = [i \<leftarrow> nodes T. stage T i = s]"

text \<open>
  The innermost statement \<^verbatim>\<open>Pi[j1, i1] = Pi[j1, i1] * Pi[n, m]\<close>, the two loops over the
  predecessors of \<open>i1\<close> and \<open>j1\<close>, the two loops over the nodes of one stage, and one
  iteration of the loop over \<open>t\<close>, which ends by loading the lists of the next stage.
\<close>

definition multiply_cell :: "ndarray \<Rightarrow> node \<times> node \<Rightarrow> node \<times> node \<Rightarrow> error + ndarray" where
  "multiply_cell Pi tgt src =
     and_then (index2 Pi (fst tgt) (snd tgt)) (\<lambda>a.
     and_then (index2 Pi (fst src) (snd src)) (\<lambda>b.
     setitem2 Pi (fst tgt) (snd tgt) (a * b)))"

definition rebuild_pair :: "tree \<Rightarrow> tree \<Rightarrow> node \<Rightarrow> node \<Rightarrow> ndarray \<Rightarrow> error + ndarray" where
  "rebuild_pair H G i1 j1 Pi =
     (let ancestor_m = predecessors H i1;
          ancestor_n = predecessors G j1
      in fold_err (\<lambda>m. fold_err (\<lambda>n Pi'. multiply_cell Pi' (j1, i1) (n, m)) ancestor_n)
           ancestor_m Pi)"

definition rebuild_stage :: "tree \<Rightarrow> tree \<Rightarrow> node list \<Rightarrow> node list \<Rightarrow> ndarray \<Rightarrow> error + ndarray" where
  "rebuild_stage H G list_i1 list_j1 Pi =
     fold_err (\<lambda>i1. fold_err (\<lambda>j1. rebuild_pair H G i1 j1) list_j1) list_i1 Pi"

definition rebuild_step ::
  "tree \<Rightarrow> tree \<Rightarrow> int \<Rightarrow> ndarray \<times> node list \<times> node list
     \<Rightarrow> error + ndarray \<times> node list \<times> node list" where
  "rebuild_step H G t st =
     (case st of (Pi, list_i1, list_j1) \<Rightarrow>
        and_then (rebuild_stage H G list_i1 list_j1 Pi) (\<lambda>Pi'.
        Inr (Pi', nodes_at_stage H (t + 1), nodes_at_stage G (t + 1))))"

text \<open>
  The pass itself: \<^verbatim>\<open>Pi[0, 0] = 1\<close>, then the stages \<^verbatim>\<open>range(1, T + 1)\<close>. The horizon
  \<open>T\<close> comes from \<^verbatim>\<open>find_process_data\<close>, which is outside the embedded file, and is a
  parameter.
\<close>

definition rebuild :: "tree \<Rightarrow> tree \<Rightarrow> int \<Rightarrow> ndarray \<Rightarrow> error + ndarray" where
  "rebuild H G T Pi =
     and_then (setitem2 Pi 0 0 1) (\<lambda>Pi0.
     and_then (fold_err (rebuild_step H G) (py_range 1 (T + 1))
                 (Pi0, nodes_at_stage H 1, nodes_at_stage G 1))
       (\<lambda>st. Inr (fst st)))"

text \<open>
  The specification's side of the factorization: the product, over the levels of the
  ancestor chain from \<open>(j, i)\<close> up to the children of the roots, of the coupling values
  the backward pass left in \<open>Pi\<close>. \<open>k\<close> is the common stage of \<open>j\<close> and \<open>i\<close>.
\<close>

definition entry :: "ndarray \<Rightarrow> node \<Rightarrow> node \<Rightarrow> real" where
  "entry A j i = rows A ! j ! i"

definition parent :: "tree \<Rightarrow> node \<Rightarrow> node" where
  "parent T v = hd (predecessors T v)"

fun chain_product :: "tree \<Rightarrow> tree \<Rightarrow> ndarray \<Rightarrow> nat \<Rightarrow> node \<Rightarrow> node \<Rightarrow> real" where
  "chain_product H G Pi 0 j i = 1"
| "chain_product H G Pi (Suc k) j i =
     entry Pi j i * chain_product H G Pi k (parent G j) (parent H i)"

text \<open>
  The data model's invariants: a dense array whose rows all have \<open>ncols\<close> entries; a
  tree whose root is node 0 at stage 0, and whose other nodes each have exactly one
  predecessor, one stage above.
\<close>

definition well_formed :: "ndarray \<Rightarrow> bool" where
  "well_formed A \<longleftrightarrow> list_all (\<lambda>r. length r = ncols A) (rows A)"

definition rooted_levelled :: "tree \<Rightarrow> bool" where
  "rooted_levelled T \<longleftrightarrow>
     distinct (nodes T) \<and> 0 \<in> set (nodes T) \<and> stage T 0 = 0
     \<and> (\<forall>v \<in> set (nodes T).
           (stage T v = 0 \<longrightarrow> v = 0)
         \<and> (1 \<le> stage T v \<longrightarrow>
              (\<exists>p \<in> set (nodes T). predecessors T v = [p] \<and> stage T p = stage T v - 1)))"

subsection \<open>Notions used in the proof of the factorization\<close>

text \<open>
  \<open>cells\<close> lists the pairs \<open>(j1, i1)\<close> in the order the stage loops visit them;
  \<open>rebuilt_upto k\<close> is the loop invariant after stage \<open>k\<close>: the pairs of the stages
  \<open>1..k\<close> hold their chain product, the root pair holds 1, every other entry is untouched.
\<close>

definition in_bounds :: "ndarray \<Rightarrow> node \<times> node \<Rightarrow> bool" where
  "in_bounds A c \<longleftrightarrow> fst c < shape0 A \<and> snd c < ncols A"

definition same_shape :: "ndarray \<Rightarrow> ndarray \<Rightarrow> bool" where
  "same_shape A B \<longleftrightarrow> shape0 A = shape0 B \<and> ncols A = ncols B"

definition cells :: "node list \<Rightarrow> node list \<Rightarrow> (node \<times> node) list" where
  "cells list_i1 list_j1 = concat (map (\<lambda>i1. map (\<lambda>j1. (j1, i1)) list_j1) list_i1)"

definition parents :: "tree \<Rightarrow> tree \<Rightarrow> node \<times> node \<Rightarrow> node \<times> node" where
  "parents H G c = (parent G (fst c), parent H (snd c))"

definition stage_pair :: "tree \<Rightarrow> tree \<Rightarrow> int \<Rightarrow> node \<times> node \<Rightarrow> bool" where
  "stage_pair H G s c \<longleftrightarrow>
     fst c \<in> set (nodes G) \<and> snd c \<in> set (nodes H) \<and> stage G (fst c) = s \<and> stage H (snd c) = s"

definition rebuilt_upto :: "tree \<Rightarrow> tree \<Rightarrow> ndarray \<Rightarrow> nat \<Rightarrow> ndarray \<Rightarrow> bool" where
  "rebuilt_upto H G Pi k A \<longleftrightarrow>
     well_formed A \<and> same_shape A Pi \<and> entry A 0 0 = 1
     \<and> (\<forall>j i. (\<exists>s. 1 \<le> s \<and> s \<le> int k \<and> stage_pair H G s (j, i)) \<longrightarrow>
            entry A j i = chain_product H G Pi (nat (stage G j)) j i)
     \<and> (\<forall>j i. \<not> (\<exists>s. 1 \<le> s \<and> s \<le> int k \<and> stage_pair H G s (j, i)) \<and> (j, i) \<noteq> (0, 0) \<longrightarrow>
            entry A j i = entry Pi j i)"

section \<open>ReductionDriver: \<open>reduction_tree\<close>\<close>

text \<open>
  What \<^verbatim>\<open>reduction_tree\<close> takes from outside the embedded file: the solvers,
  \<^verbatim>\<open>find_process_data\<close> (per leaf the chain of ancestors and the cumulative values,
  then the leaf probabilities and the horizon \<open>T\<close>), the order in which Python iterates
  over \<^verbatim>\<open>set(xs)\<close>, \<^verbatim>\<open>comm.Get_size()\<close>, and the outcome of the test
  \<^verbatim>\<open>np.sum(Pi) == 0\<close>. NumPy evaluates that test on the float64 sum of the entries,
  where rounding can absorb or leave a term: the outcome is not a function of the exact
  sum \<open>np_sum\<close> of the entries, so it is a parameter, \<open>sum_is_zero\<close>. Wall-clock times
  are not modelled.
\<close>

record environment =
  solvers_of :: solvers
  find_process_data :: "tree \<Rightarrow> node list list \<times> vec list \<times> vec \<times> int"
  set_order :: "node list \<Rightarrow> node list"
  comm_size :: int
  sum_is_zero :: "ndarray \<Rightarrow> bool"

subsection \<open>Seeding the transport matrix\<close>

text \<open>
  \<^verbatim>\<open>np.max\<close> of the stages (a \<open>ValueError\<close> on an empty list), the two loops over the
  children that write \<^verbatim>\<open>Pi[j, i] = H[m][i]['weight'] / len(children_n)\<close>, the body of
  the loops over \<open>list_n\<close> and \<open>list_m\<close>, one stage \<open>t\<close>, and the whole block guarded
  by \<^verbatim>\<open>if np.sum(Pi) == 0\<close>, whose outcome on \<open>Pi\<close> is \<open>is_zero Pi\<close>.
\<close>

definition np_max :: "int list \<Rightarrow> error + int" where
  "np_max xs = (if xs = [] then Inl ValueError else Inr (Max (set xs)))"

definition seed_children ::
  "tree \<Rightarrow> node \<Rightarrow> node list \<Rightarrow> node list \<Rightarrow> ndarray \<Rightarrow> error + ndarray" where
  "seed_children H m children_m children_n Pi =
     fold_err (\<lambda>i. fold_err (\<lambda>j Pi'.
         and_then (weight H m i) (\<lambda>w. setitem2 Pi' j i (w / real (length children_n))))
       children_n) children_m Pi"

definition seed_pair ::
  "tree \<Rightarrow> tree \<Rightarrow> int \<Rightarrow> node \<Rightarrow> node \<Rightarrow> ndarray \<times> node list \<times> node list
     \<Rightarrow> error + ndarray \<times> node list \<times> node list" where
  "seed_pair H G t n m st =
     (case st of (Pi, anc_m, anc_n) \<Rightarrow>
        and_then (seed_children H m (successors H m) (successors G n) Pi) (\<lambda>Pi'.
        if t > 0 then
          and_then (first_of (predecessors G n)) (\<lambda>pn.
          and_then (first_of (predecessors H m)) (\<lambda>pm.
          Inr (Pi', anc_m @ [pm], anc_n @ [pn])))
        else Inr (Pi', anc_m, anc_n)))"

definition seed_stage ::
  "(node list \<Rightarrow> node list) \<Rightarrow> tree \<Rightarrow> tree \<Rightarrow> int \<Rightarrow> ndarray \<times> node list \<times> node list
     \<Rightarrow> error + ndarray \<times> node list \<times> node list" where
  "seed_stage ord H G t st =
     (case st of (Pi, anc_m, anc_n) \<Rightarrow>
        let list_m = ord anc_m;
            list_n = ord anc_n
        in fold_err (\<lambda>n. fold_err (seed_pair H G t n) list_m) list_n (Pi, [], []))"

definition seed_Pi :: "(node list \<Rightarrow> node list) \<Rightarrow> tree \<Rightarrow> tree \<Rightarrow> error + ndarray" where
  "seed_Pi ord H G =
     (let N1 = length (nodes G);
          N2 = length (nodes H)
      in and_then (setitem2 (np_zeros N1 N2) 0 0 1) (\<lambda>Pi.
         and_then (np_max (map (stage G) (nodes G))) (\<lambda>T.
         and_then (fold_err (seed_stage ord H G) (rev (py_range 0 T))
                     (Pi, nodes_at_stage H (T - 1), nodes_at_stage G (T - 1)))
           (\<lambda>st. Inr (fst st)))))"

definition init_Pi ::
  "(ndarray \<Rightarrow> bool) \<Rightarrow> (node list \<Rightarrow> node list) \<Rightarrow> tree \<Rightarrow> tree \<Rightarrow> ndarray
     \<Rightarrow> error + ndarray" where
  "init_Pi is_zero ord H G Pi = (if is_zero Pi then seed_Pi ord H G else Inr Pi)"

subsection \<open>Leaf distances\<close>

text \<open>
  \<^verbatim>\<open>xs[-1]\<close>, \<^verbatim>\<open>xs[i]\<close>, \<^verbatim>\<open>np.sum((u - v) ** 2)\<close> with broadcasting, and the
  double loop that fills \<open>D_ij\<close>, \<open>nodesG\<close> and \<open>nodesH\<close>.
\<close>

definition last_of :: "'a list \<Rightarrow> error + 'a" where
  "last_of xs = (if xs = [] then Inl IndexError else Inr (last xs))"

definition item :: "'a list \<Rightarrow> nat \<Rightarrow> error + 'a" where
  "item xs i = (if i < length xs then Inr (xs ! i) else Inl IndexError)"

definition squared_distance :: "vec \<Rightarrow> vec \<Rightarrow> error + real" where
  "squared_distance u v =
     (case broadcast_dim (length u) (length v) of
        None \<Rightarrow> Inl ValueError
      | Some k \<Rightarrow>
          Inr (sum_list (map (\<lambda>i. (u ! (if length u = 1 then 0 else i)
                                      - v ! (if length v = 1 then 0 else i))\<^sup>2) [0..<k])))"

definition leaf_row ::
  "node list list \<Rightarrow> vec list \<Rightarrow> node list list \<Rightarrow> vec list \<Rightarrow> nat
     \<Rightarrow> error + node \<times> real list \<times> node list" where
  "leaf_row ai wi aj wj i =
     and_then (item ai i) (\<lambda>chain_i.
     and_then (last_of chain_i) (\<lambda>leaf_i.
     and_then (for_each (\<lambda>j.
         and_then (item wi i) (\<lambda>u.
         and_then (item wj j) (\<lambda>v.
         and_then (squared_distance u v) (\<lambda>d.
         if i = 0 then and_then (last_of (aj ! j)) (\<lambda>leaf_j. Inr (d, [leaf_j]))
         else Inr (d, [])))))
       [0..<length aj])
     (\<lambda>row. Inr (leaf_i, map fst row, concat (map snd row)))))"

definition leaf_distances ::
  "node list list \<Rightarrow> vec list \<Rightarrow> node list list \<Rightarrow> vec list
     \<Rightarrow> error + ndarray \<times> node list \<times> node list" where
  "leaf_distances ai wi aj wj =
     and_then (for_each (leaf_row ai wi aj wj) [0..<length ai]) (\<lambda>per_leaf.
     Inr (NDArray (length aj) (map (fst \<circ> snd) per_leaf),
          map fst per_leaf, concat (map (snd \<circ> snd) per_leaf)))"

subsection \<open>The backward pass\<close>

text \<open>
  \<^verbatim>\<open>np.round(x, 3)\<close> rounds \<open>1000 x\<close> to the nearest integer, ties to even.
  \<open>assign_row\<close> is \<^verbatim>\<open>Pi[j, children_m] = v\<close>: the indices are checked, then \<open>v\<close> must
  have one value per column or a single value. \<open>set_weight\<close> is
  \<^verbatim>\<open>G[n][j]['weight'] = w\<close>.
\<close>

definition rint :: "real \<Rightarrow> int" where
  "rint x =
     (let f = \<lfloor>x\<rfloor>
      in if x - of_int f < 1 / 2 then f
         else if x - of_int f > 1 / 2 then f + 1
         else if even f then f else f + 1)"

definition np_round :: "real \<Rightarrow> nat \<Rightarrow> real" where
  "np_round x decimals = of_int (rint (x * 10 ^ decimals)) / 10 ^ decimals"

definition row_of :: "ndarray \<Rightarrow> nat \<Rightarrow> error + vec" where
  "row_of A i = (if i < shape0 A then Inr (rows A ! i) else Inl IndexError)"

definition assign_row :: "ndarray \<Rightarrow> node \<Rightarrow> node list \<Rightarrow> vec \<Rightarrow> error + ndarray" where
  "assign_row Pi j cols v =
     (if j < shape0 Pi \<and> list_all (\<lambda>c. c < ncols Pi) cols then
        (if length v = length cols \<or> length v = 1 then
           Inr (NDArray (ncols Pi)
                 ((rows Pi)[j := fold (\<lambda>k r. r[cols ! k := v ! (if length v = 1 then 0 else k)])
                                  [0..<length cols] (rows Pi ! j)]))
         else Inl ValueError)
      else Inl IndexError)"

definition set_weight :: "tree \<Rightarrow> node \<Rightarrow> node \<Rightarrow> real \<Rightarrow> tree" where
  "set_weight T n j w =
     T\<lparr>edges := map (\<lambda>e. if fst e = (n, j) then (fst e, w) else e) (edges T)\<rparr>"

text \<open>The variables the loop over the stages carries from one stage to the next.\<close>

record driver_state =
  G_of :: tree
  Pi_of :: ndarray
  D_ij_of :: ndarray
  nodesG_of :: "node list"
  nodesH_of :: "node list"
  ancestors_m :: "node list"
  ancestors_n :: "node list"
  nb_n :: "nat list"
  nb_m :: "nat list"

text \<open>
  The coordinator's writes for one processed node \<open>n\<close>: for each candidate \<open>m\<close> and each
  child \<open>j\<close> of \<open>n\<close>, row \<open>j_c\<close> of the plan goes into \<open>Pi\<close>, and for the first
  candidate the weight of the edge \<open>n \<rightarrow> j\<close> becomes the rounded row sum.
\<close>

definition write_child ::
  "tree \<Rightarrow> node \<Rightarrow> node list \<Rightarrow> ndarray list \<Rightarrow> node list \<Rightarrow> nat \<Rightarrow> nat
     \<Rightarrow> tree \<times> ndarray \<Rightarrow> error + tree \<times> ndarray" where
  "write_child H n children_n plans list_m i_m j_c st =
     (case st of (G, Pi) \<Rightarrow>
        let children_m = successors H (list_m ! i_m);
            j = children_n ! j_c
        in and_then (item plans i_m) (\<lambda>plan.
           and_then (row_of plan j_c) (\<lambda>v.
           and_then (assign_row Pi j children_m v) (\<lambda>Pi'.
           if i_m = 0
           then Inr (set_weight G n j
                       (np_round (sum_list (map (\<lambda>i. rows Pi' ! j ! i) children_m)) 3), Pi')
           else Inr (G, Pi')))))"

definition write_back ::
  "tree \<Rightarrow> node \<Rightarrow> ndarray list \<Rightarrow> node list \<Rightarrow> tree \<times> ndarray \<Rightarrow> error + tree \<times> ndarray" where
  "write_back H n plans list_m st =
     (let children_n = successors (fst st) n
      in fold_err (\<lambda>i_m. fold_err (write_child H n children_n plans list_m i_m)
                           [0..<length children_n])
           [0..<length list_m] st)"

text \<open>
  One stage. With \<open>pool_size = 1\<close> and \<open>rank = 0\<close> the first loop calls
  \<open>_loop_subtree_n\<close> for every node of \<open>list_n\<close>, all on the transport matrix of the
  previous stage; the second loop merges the outputs and writes them back.
\<close>

definition merge_output ::
  "tree \<Rightarrow> node list \<Rightarrow> node list \<Rightarrow> (node \<times> subproblem_output) list \<Rightarrow> nat
     \<Rightarrow> (tree \<times> ndarray) \<times> real list list \<times> node list \<times> node list
     \<Rightarrow> error + (tree \<times> ndarray) \<times> real list list \<times> node list \<times> node list" where
  "merge_output H list_n list_m outputs i_n st =
     (case st of (GPi, dists, anc_n, anc_m) \<Rightarrow>
        let n = list_n ! i_n
        in (case map_of outputs n of
              None \<Rightarrow> Inl KeyError
            | Some out \<Rightarrow>
                and_then (write_back H n (Pi_k out) list_m GPi) (\<lambda>GPi'.
                Inr (GPi', dists @ [D_ij_t out], anc_n @ ancestor_n out,
                     if i_n = 0 then ancestor_m out else anc_m))))"

definition backward_stage ::
  "environment \<Rightarrow> tree \<Rightarrow> string \<Rightarrow> real \<Rightarrow> real \<Rightarrow> real \<Rightarrow> int \<Rightarrow> driver_state
     \<Rightarrow> error + driver_state" where
  "backward_stage env H method lambda_IBP rho epsilon t st =
     (let list_m = set_order env (ancestors_m st);
          list_n = set_order env (ancestors_n st);
          pool_size = 1
      in and_then (division_tasks (int (length list_n)) pool_size) (\<lambda>splitting_work.
         and_then (first_of splitting_work) (\<lambda>work_list.
         and_then (for_each (\<lambda>work.
             and_then (item list_n (nat work)) (\<lambda>n.
             and_then (loop_subtree_n (solvers_of env) t (G_of st) H (nodesG_of st) (nodesH_of st)
                         list_m (D_ij_of st) (Pi_of st) method lambda_IBP rho epsilon
                         (comm_size env) n)
               (\<lambda>out. Inr (n, out)))) work_list) (\<lambda>outputs.
         and_then (fold_err (merge_output H list_n list_m outputs) [0..<length list_n]
                     ((G_of st, Pi_of st), [], [], ancestors_m st)) (\<lambda>merged.
         case merged of (GPi, dists, anc_n, anc_m) \<Rightarrow>
           Inr \<lparr>G_of = fst GPi, Pi_of = snd GPi,
                D_ij_of = NDArray (length list_m) dists,
                nodesG_of = list_n, nodesH_of = list_m,
                ancestors_m = anc_m, ancestors_n = anc_n,
                nb_n = nb_n st @ [length list_n], nb_m = nb_m st @ [length list_m]\<rparr>)))))"

subsection \<open>The driver\<close>

text \<open>
  The returned tuple without its timings, and \<open>reduction_tree\<close>: the assertion on
  \<open>method\<close>, the seeding, then the body with \<open>epsilon = 10 ** -3\<close>.
\<close>

record reduction =
  G_reduced :: tree
  nested_distance :: real
  Pi_final :: ndarray
  frontier_G_sizes :: "nat list"
  frontier_H_sizes :: "nat list"

definition reduction_body ::
  "environment \<Rightarrow> tree \<Rightarrow> tree \<Rightarrow> ndarray \<Rightarrow> real \<Rightarrow> string \<Rightarrow> real \<Rightarrow> error + reduction" where
  "reduction_body env H G Pi rho method lambda_IBP =
     (case find_process_data env G of (ai, wi, p_i, T) \<Rightarrow>
      case find_process_data env H of (aj, wj, p_j, T_H) \<Rightarrow>
        and_then (leaf_distances ai wi aj wj) (\<lambda>leaf.
        case leaf of (D_ij, nodesG, nodesH) \<Rightarrow>
          and_then (fold_err (backward_stage env H method lambda_IBP rho (1 / 1000))
                      (rev (py_range 0 T))
                      \<lparr>G_of = G, Pi_of = Pi, D_ij_of = D_ij, nodesG_of = nodesG,
                       nodesH_of = nodesH, ancestors_m = nodes_at_stage H (T - 1),
                       ancestors_n = nodes_at_stage G (T - 1), nb_n = [], nb_m = []\<rparr>) (\<lambda>st.
          and_then (rebuild H (G_of st) T (Pi_of st)) (\<lambda>Pi'.
          and_then (index2 (D_ij_of st) 0 0) (\<lambda>d.
          Inr \<lparr>G_reduced = G_of st, nested_distance = d, Pi_final = Pi',
               frontier_G_sizes = rev (nb_n st), frontier_H_sizes = rev (nb_m st)\<rparr>)))))"

definition reduction_tree ::
  "environment \<Rightarrow> tree \<Rightarrow> tree \<Rightarrow> ndarray \<Rightarrow> real \<Rightarrow> string \<Rightarrow> real \<Rightarrow> int \<Rightarrow> error + reduction" where
  "reduction_tree env H G Pi rho method lambda_IBP npool =
     (if method \<notin> set [''LP'', ''MAM'', ''IBP''] then Inl AssertionError
      else and_then (init_Pi (sum_is_zero env) (set_order env) H G Pi) (\<lambda>Pi'.
           reduction_body env H G Pi' rho method lambda_IBP))"

subsection \<open>Notions used in the proofs about the driver\<close>

text \<open>A run that does not end in the \<open>AssertionError\<close> of the precondition check.\<close>

definition not_rejected :: "error + 'a \<Rightarrow> bool" where
  "not_rejected r \<longleftrightarrow> r \<noteq> Inl AssertionError"

section \<open>Notions used in the proof of the seeding formula\<close>







section \<open>SubtreeReducer on an explicit store\<close>

text \<open>
  For the frame claim the objects Python passes by reference live in a store: NumPy
  arrays and graphs are objects at addresses, allocation appends a new object, and the
  only way to change an object is an in-place write. A program takes the store and
  returns its result, or the exception raised, with the store as it is then.
\<close>

datatype obj = Matrix ndarray | Vector vec | Graph tree

type_synonym ref = nat

type_synonym heap = "obj list"

type_synonym 'a prog = "heap \<Rightarrow> (error + 'a) \<times> heap"

text \<open>
  Returning, raising, a computation on values, sequencing, allocation of a new array,
  reading an object of the expected kind, and the in-place write \<^verbatim>\<open>v[i] = x\<close>.
\<close>

definition finish :: "'a \<Rightarrow> 'a prog" where
  "finish x h = (Inr x, h)"

definition raise :: "error \<Rightarrow> 'a prog" where
  "raise e h = (Inl e, h)"

definition pure_step :: "error + 'a \<Rightarrow> 'a prog" where
  "pure_step r h = (r, h)"

definition then_run :: "'a prog \<Rightarrow> ('a \<Rightarrow> 'b prog) \<Rightarrow> 'b prog" where
  "then_run m f h = (case m h of (Inl e, h') \<Rightarrow> (Inl e, h') | (Inr x, h') \<Rightarrow> f x h')"

definition alloc :: "obj \<Rightarrow> ref prog" where
  "alloc v h = (Inr (length h), h @ [v])"

definition get_matrix :: "ref \<Rightarrow> ndarray prog" where
  "get_matrix r h =
     (if r < length h then (case h ! r of Matrix A \<Rightarrow> (Inr A, h) | _ \<Rightarrow> (Inl TypeError, h))
      else (Inl TypeError, h))"

definition get_vector :: "ref \<Rightarrow> vec prog" where
  "get_vector r h =
     (if r < length h then (case h ! r of Vector v \<Rightarrow> (Inr v, h) | _ \<Rightarrow> (Inl TypeError, h))
      else (Inl TypeError, h))"

definition get_graph :: "ref \<Rightarrow> tree prog" where
  "get_graph r h =
     (if r < length h then (case h ! r of Graph T \<Rightarrow> (Inr T, h) | _ \<Rightarrow> (Inl TypeError, h))
      else (Inl TypeError, h))"

definition set_vector_item :: "ref \<Rightarrow> nat \<Rightarrow> real \<Rightarrow> unit prog" where
  "set_vector_item r i x h =
     (if r < length h then
        (case h ! r of
           Vector v \<Rightarrow> if i < length v then (Inr (), h[r := Vector (v[i := x])])
                       else (Inl IndexError, h)
         | _ \<Rightarrow> (Inl TypeError, h))
      else (Inl TypeError, h))"

fun for_each_run :: "('a \<Rightarrow> 'b prog) \<Rightarrow> 'a list \<Rightarrow> 'b list prog" where
  "for_each_run f [] = finish []"
| "for_each_run f (x # xs) =
     then_run (f x) (\<lambda>y. then_run (for_each_run f xs) (\<lambda>ys. finish (y # ys)))"

fun fold_run :: "('a \<Rightarrow> 's \<Rightarrow> 's prog) \<Rightarrow> 'a list \<Rightarrow> 's \<Rightarrow> 's prog" where
  "fold_run f [] s = finish s"
| "fold_run f (x # xs) s = then_run (f x s) (fold_run f xs)"

text \<open>
  \<open>_loop_subtree_n\<close> statement by statement. \<open>G\<close>, \<open>H\<close>, \<open>D_ij\<close> and \<open>Pi\<close> are
  addresses of the caller's objects. Index expressions with lists, arithmetic, \<open>clip\<close>
  and the solvers produce new arrays; \<^verbatim>\<open>np.expand_dims\<close> produces a view, which is
  never written to and is modelled as a new array. The only in-place array write is
  \<^verbatim>\<open>D_ij_t[i_m] = ...\<close>, on the array the function allocated in its first statement;
  \<^verbatim>\<open>Pi_k[i_m] = ...\<close> rebinds an entry of the local list of plans.
\<close>

record stored_output =
  Pi_k_refs :: "ref list"
  D_ij_t_ref :: ref
  ancestor_m_list :: "node list"
  ancestor_n_list :: "node list"

definition subtree_m_run ::
  "int \<Rightarrow> ref \<Rightarrow> node list \<Rightarrow> ref \<Rightarrow> ref \<Rightarrow> nat list \<Rightarrow> node \<Rightarrow> node
     \<Rightarrow> (ref \<times> ref \<times> ref \<times> node list) prog" where
  "subtree_m_run t H_ref nodesH D_ref Pi_ref children_ni n m =
     then_run (get_graph H_ref) (\<lambda>H.
     let children_m = successors H m;
         children_mj = [i \<leftarrow> [0..<length nodesH]. nodesH ! i \<in> set children_m]
     in then_run (pure_step (for_each (weight H m) children_m)) (\<lambda>weights.
        then_run (alloc (Vector weights)) (\<lambda>p.
        then_run (get_matrix D_ref) (\<lambda>D_ij.
        then_run (pure_step (take_rows D_ij children_ni)) (\<lambda>picked.
        then_run (alloc (Matrix picked)) (\<lambda>dist0.
        then_run (get_matrix dist0) (\<lambda>A.
        then_run (pure_step (take_cols A children_mj)) (\<lambda>picked'.
        then_run (alloc (Matrix picked')) (\<lambda>dist.
        then_run (get_matrix dist) (\<lambda>B.
        then_run (get_matrix Pi_ref) (\<lambda>Pi.
        then_run (pure_step (index2 Pi n m)) (\<lambda>Pi_nm.
        then_run (alloc (Matrix (scale B Pi_nm))) (\<lambda>c.
        then_run (pure_step (collect_ancestor t H m)) (\<lambda>anc.
        finish (p, dist, c, anc)))))))))))))))"

definition stabilize_m_run ::
  "real \<Rightarrow> ref list \<Rightarrow> ref \<Rightarrow> nat \<Rightarrow> ref list \<Rightarrow> ref list prog" where
  "stabilize_m_run epsilon dist_matrices dists_ref i_m plans =
     then_run (pure_step (item plans i_m)) (\<lambda>r.
     then_run (get_matrix r) (\<lambda>P.
     then_run (alloc (Matrix (clip P epsilon))) (\<lambda>clipped.
     then_run (get_matrix clipped) (\<lambda>Q.
     then_run (alloc (Matrix (divide Q (np_sum Q)))) (\<lambda>normed.
     then_run (get_matrix normed) (\<lambda>Q'.
     then_run (pure_step (item dist_matrices i_m)) (\<lambda>d.
     then_run (get_matrix d) (\<lambda>dist.
     then_run (pure_step (np_multiply Q' dist)) (\<lambda>prod.
     then_run (set_vector_item dists_ref i_m (np_sum prod)) (\<lambda>u.
     finish (plans[i_m := normed])))))))))))"

definition loop_subtree_n_run ::
  "solvers \<Rightarrow> int \<Rightarrow> ref \<Rightarrow> ref \<Rightarrow> node list \<Rightarrow> node list \<Rightarrow> node list \<Rightarrow> ref \<Rightarrow> ref
     \<Rightarrow> string \<Rightarrow> real \<Rightarrow> real \<Rightarrow> real \<Rightarrow> int \<Rightarrow> node \<Rightarrow> stored_output prog" where
  "loop_subtree_n_run S t G_ref H_ref nodesG nodesH list_m D_ref Pi_ref method lambda_IBP rho
      epsilon pool_sizeMAM n =
     then_run (alloc (Vector (replicate (length list_m) 0))) (\<lambda>dists_ref.
     then_run (get_graph G_ref) (\<lambda>G.
     let children_n = successors G n;
         children_ni = [j \<leftarrow> [0..<length nodesG]. nodesG ! j \<in> set children_n]
     in then_run (for_each_run (subtree_m_run t H_ref nodesH D_ref Pi_ref children_ni n) list_m)
          (\<lambda>per_m.
        then_run (pure_step (collect_ancestor t G n)) (\<lambda>anc_n.
        then_run (for_each_run get_vector (map fst per_m)) (\<lambda>b.
        then_run (for_each_run get_matrix (map (fst \<circ> snd \<circ> snd) per_m)) (\<lambda>c.
        then_run (pure_step (solve_subtree S method lambda_IBP rho pool_sizeMAM children_n b c))
          (\<lambda>chosen.
        case chosen of
          None \<Rightarrow> raise UnboundLocalError
        | Some plans \<Rightarrow>
            then_run (for_each_run (\<lambda>P. alloc (Matrix P)) plans) (\<lambda>refs.
            then_run (fold_run (stabilize_m_run epsilon (map (fst \<circ> snd) per_m) dists_ref)
                        [0..<length list_m] refs) (\<lambda>refs'.
            finish \<lparr>Pi_k_refs = refs', D_ij_t_ref = dists_ref,
                     ancestor_m_list = concat (map (snd \<circ> snd \<circ> snd) per_m),
                     ancestor_n_list = anc_n\<rparr>)))))))))"

subsection \<open>Notions used in the frame proof\<close>

text \<open>
  \<open>frames k m Q\<close>: run from a store with at least \<open>k\<close> objects, \<open>m\<close> leaves the first
  \<open>k\<close> objects as they are, never shrinks the store, and a returned value satisfies
  \<open>Q\<close>.
\<close>

definition frames :: "nat \<Rightarrow> 'a prog \<Rightarrow> ('a \<Rightarrow> bool) \<Rightarrow> bool" where
  "frames k m Q \<longleftrightarrow>
     (\<forall>h. k \<le> length h \<longrightarrow>
        (case m h of (r, h') \<Rightarrow>
           length h \<le> length h' \<and> take k h' = take k h
           \<and> (case r of Inl e \<Rightarrow> True | Inr x \<Rightarrow> Q x)))"

section \<open>Example inputs\<close>

text \<open>
  \<open>H_rare\<close>: a root with two leaves, one of probability 0.0005. \<open>G_single\<close>: a root with
  one leaf. \<open>H_chain\<close>: a chain of three stages. \<open>D_rare\<close> and \<open>Pi_rare\<close> are leaf
  distances and the seeded transport matrix for \<open>G_single\<close> against \<open>H_rare\<close>.
\<close>

definition no_solvers :: solvers where
  "no_solvers = \<lparr>MAM = (\<lambda>b c rho. []), MAM_MPI = (\<lambda>b c rho. []),
     barycenter_IBP = (\<lambda>b c l. []), LP_reduction_nt = (\<lambda>c b. NDArray 0 [])\<rparr>"

definition H_rare :: tree where
  "H_rare = \<lparr>nodes = [0, 1, 2], stage = (\<lambda>i. if i = 0 then 0 else 1),
     edges = [((0, 1), 1 / 2000), ((0, 2), 1999 / 2000)]\<rparr>"

definition G_single :: tree where
  "G_single = \<lparr>nodes = [0, 1], stage = (\<lambda>i. if i = 0 then 0 else 1), edges = [((0, 1), 1)]\<rparr>"

definition H_chain :: tree where
  "H_chain = \<lparr>nodes = [0, 1, 2], stage = (\<lambda>i. int i), edges = [((0, 1), 1), ((1, 2), 1)]\<rparr>"

definition D_rare :: ndarray where
  "D_rare = NDArray 2 [[4, 9]]"

definition Pi_rare :: ndarray where
  "Pi_rare = NDArray 3 [[1, 0, 0], [0, 1 / 2000, 1999 / 2000]]"

text \<open>
  \<open>G_two\<close>, a chain of three stages, against \<open>H_two\<close>, a binary root over two chains;
  \<open>Pi_two\<close> is a transport matrix as the backward pass could leave it.
\<close>

definition G_two :: tree where
  "G_two = \<lparr>nodes = [0, 1, 2], stage = (\<lambda>i. int i), edges = [((0, 1), 1), ((1, 2), 1)]\<rparr>"

definition H_two :: tree where
  "H_two = \<lparr>nodes = [0, 1, 2, 3, 4], stage = (\<lambda>i. if i = 0 then 0 else if i \<le> 2 then 1 else 2),
     edges = [((0, 1), 1 / 2), ((0, 2), 1 / 2), ((1, 3), 1), ((2, 4), 1)]\<rparr>"



definition Pi_two :: ndarray where
  "Pi_two = NDArray 5 [[7, 0, 0, 0, 0], [0, 1 / 2, 1 / 2, 0, 0], [0, 0, 0, 1 / 3, 1 / 4]]"

text \<open>
  \<open>leaf_paths\<close> stands for \<^verbatim>\<open>find_process_data\<close> on \<open>G_single\<close> (one edge) and
  \<open>H_rare\<close>; \<open>Pi_cancel\<close> is a nonzero matrix whose entries sum to zero. The matrices
  of the examples have few entries, integers or weights that sum to about 1: on them the
  float64 sum is zero exactly when the exact sum is, which is the test of \<open>example_env\<close>.
\<close>

definition leaf_paths :: "tree \<Rightarrow> node list list \<times> vec list \<times> vec \<times> int" where
  "leaf_paths T =
     (if length (edges T) = 1 then ([[0, 1]], [[0, 3]], [1], 1)
      else ([[0, 1], [0, 2]], [[0, 1], [0, 6]], [1 / 2000, 1999 / 2000], 1))"

definition example_env :: environment where
  "example_env = \<lparr>solvers_of = no_solvers, find_process_data = leaf_paths,
     set_order = remdups, comm_size = 1, sum_is_zero = (\<lambda>Pi. np_sum Pi = 0)\<rparr>"



text \<open>A store that holds the caller's objects at the addresses 0 to 3.\<close>

definition rare_heap :: heap where
  "rare_heap = [Graph G_single, Graph H_rare, Matrix D_rare, Matrix Pi_rare]"

section \<open>Properties of the task partition\<close>

lemma equal_sections_length: "length (equal_sections k sz xs) = k"
  by (induction k arbitrary: xs) auto

lemma equal_sections_concat:
  "length xs = k * sz \<Longrightarrow> concat (equal_sections k sz xs) = xs"
  by (induction k arbitrary: xs) auto

lemma equal_sections_nth:
  "length xs = k * sz \<Longrightarrow> i < k \<Longrightarrow> length (equal_sections k sz xs ! i) = sz"
proof (induction k arbitrary: xs i)
  case 0
  then show ?case by simp
next
  case (Suc k)
  show ?case
  proof (cases i)
    case 0
    with Suc.prems show ?thesis by simp
  next
    case (Suc j)
    with Suc.prems Suc.IH [of "drop sz xs" j] show ?thesis by simp
  qed
qed

lemma np_split_even:
  assumes "0 < s" and "0 \<le> q" and "int (length xs) = s * q"
  shows "np_split xs s = Inr (equal_sections (nat s) (nat q) xs)"
  using assms by (simp add: np_split_def)

lemma length_py_range: "length (py_range a b) = nat (b - a)"
  by (simp add: py_range_def)

lemma py_range_append:
  "a \<le> b \<Longrightarrow> b \<le> c \<Longrightarrow> py_range a b @ py_range b c = py_range a c"
  unfolding py_range_def using upto_split2 [of a "b - 1" "c - 1"]
  by (cases "a = b") auto

lemma division_tasks_even:
  assumes "0 \<le> N" and "1 \<le> P" and "N mod P = 0"
  shows "division_tasks N P = Inr (equal_sections (nat P) (nat (N div P)) (py_range 0 N))"
proof -
  have "int (length (py_range 0 N)) = P * (N div P)"
    using assms mult_div_mod_eq [of P N] by (simp add: length_py_range)
  moreover have "0 \<le> N div P"
    using assms by (simp add: pos_imp_zdiv_nonneg_iff)
  ultimately have "np_split (py_range 0 N) P
      = Inr (equal_sections (nat P) (nat (N div P)) (py_range 0 N))"
    using assms by (intro np_split_even) auto
  then show ?thesis
    using assms by (simp add: division_tasks_def)
qed

lemma division_tasks_uneven:
  assumes "0 \<le> N" and "1 \<le> P" and "N mod P \<noteq> 0"
  shows "division_tasks N P =
     Inr (equal_sections (nat (N mod P)) (nat (N div P + 1)) (py_range 0 ((N div P + 1) * (N mod P)))
        @ equal_sections (nat (P - N mod P)) (nat (N div P)) (py_range ((N div P + 1) * (N mod P)) N))"
proof -
  let ?d = "N div P"
  let ?c = "N mod P"
  have "0 < P"
    using assms by simp
  then have "0 \<le> ?c" and c2: "?c < P"
    by simp_all
  then have c1: "0 < ?c"
    using assms by linarith
  have d: "0 \<le> ?d"
    using assms by (simp add: pos_imp_zdiv_nonneg_iff)
  have N: "N = P * ?d + ?c"
    by simp
  have k: "?d * ?c + ?c = (?d + 1) * ?c"
    by (simp add: algebra_simps)
  have "int (length (py_range 0 ((?d + 1) * ?c))) = ?c * (?d + 1)"
    using c1 d by (simp add: length_py_range)
  then have s1: "np_split (py_range 0 ((?d + 1) * ?c)) ?c
      = Inr (equal_sections (nat ?c) (nat (?d + 1)) (py_range 0 ((?d + 1) * ?c)))"
    using c1 d by (intro np_split_even) auto
  have "N - (?d + 1) * ?c = (P - ?c) * ?d"
    using N by (simp add: algebra_simps)
  moreover have "0 \<le> (P - ?c) * ?d"
    using c2 d by simp
  ultimately have "int (length (py_range ((?d + 1) * ?c) N)) = (P - ?c) * ?d"
    by (simp add: length_py_range)
  then have s2: "np_split (py_range ((?d + 1) * ?c) N) (P - ?c)
      = Inr (equal_sections (nat (P - ?c)) (nat ?d) (py_range ((?d + 1) * ?c) N))"
    using c2 d by (intro np_split_even) auto
  have "division_tasks N P =
     (case np_split (py_range 0 (?d * ?c + ?c)) ?c of
        Inl e \<Rightarrow> Inl e
      | Inr rearranged1 \<Rightarrow>
          (case np_split (py_range (?d * ?c + ?c) N) (P - ?c) of
             Inl e \<Rightarrow> Inl e
           | Inr rearranged2 \<Rightarrow> Inr (rearranged1 @ rearranged2)))"
    using assms by (simp add: division_tasks_def Let_def)
  then show ?thesis
    unfolding k s1 s2 by simp
qed

text \<open>
  Claim C4. For a task count \<open>N \<ge> 1\<close> and a worker count \<open>P\<close> with \<open>1 \<le> P \<le> N\<close>,
  \<open>division_tasks N P\<close> returns (it does not raise) \<open>P\<close> ordered groups whose
  concatenation is the range \<open>[0, N)\<close> itself, hence a permutation of it without duplicates
  or gaps. When \<open>P\<close> divides \<open>N\<close> every group has \<open>N div P\<close> tasks; otherwise the first
  \<open>N mod P\<close> groups have \<open>N div P + 1\<close> tasks and the others \<open>N div P\<close>, so no group has
  more than one task more than another. The result is a function of \<open>(N, P)\<close> alone.
\<close>

theorem division_tasks_partition:
  assumes "1 \<le> N" and "1 \<le> P" and "P \<le> N"
  shows "\<exists>groups. division_tasks N P = Inr groups
           \<and> length groups = nat P
           \<and> concat groups = py_range 0 N
           \<and> mset (concat groups) = mset (py_range 0 N)
           \<and> distinct (concat groups)
           \<and> (\<forall>k < nat P. int (length (groups ! k))
                  = (if N mod P = 0 then N div P
                     else if int k < N mod P then N div P + 1 else N div P))
           \<and> (\<forall>k < nat P. \<forall>l < nat P. length (groups ! k) \<le> length (groups ! l) + 1)"
proof (cases "N mod P = 0")
  case True
  let ?g = "equal_sections (nat P) (nat (N div P)) (py_range 0 N)"
  have "N = P * (N div P)"
    using True mult_div_mod_eq [of P N] by simp
  then have len: "length (py_range 0 N) = nat P * nat (N div P)"
    using assms by (simp add: length_py_range flip: nat_mult_distrib)
  have eq: "division_tasks N P = Inr ?g"
    using assms True by (intro division_tasks_even) auto
  have cc: "concat ?g = py_range 0 N"
    using len by (rule equal_sections_concat)
  have sz: "\<And>k. k < nat P \<Longrightarrow> length (?g ! k) = nat (N div P)"
    using len by (rule equal_sections_nth)
  have nn: "0 \<le> N div P"
    using assms by (simp add: pos_imp_zdiv_nonneg_iff)
  show ?thesis
    unfolding eq using cc sz nn True
    by (simp add: equal_sections_length py_range_def)
next
  case False
  define d where "d = N div P"
  define c where "c = N mod P"
  have "0 < P"
    using assms by simp
  then have "0 \<le> c" and "c < P"
    by (simp_all add: c_def)
  moreover have "c \<noteq> 0"
    using False by (simp add: c_def)
  ultimately have c: "0 < c" "c < P"
    by simp_all
  have d: "0 \<le> d"
    using assms by (simp add: d_def pos_imp_zdiv_nonneg_iff)
  have N: "N = P * d + c"
    by (simp add: d_def c_def)
  let ?m = "(d + 1) * c"
  let ?g1 = "equal_sections (nat c) (nat (d + 1)) (py_range 0 ?m)"
  let ?g2 = "equal_sections (nat (P - c)) (nat d) (py_range ?m N)"
  have eq: "division_tasks N P = Inr (?g1 @ ?g2)"
    using division_tasks_uneven [of N P] assms False by (simp add: d_def c_def)
  have m: "0 \<le> ?m" "?m \<le> N"
    using c d by (simp_all add: N algebra_simps mult_right_mono)
  have len1: "length (py_range 0 ?m) = nat c * nat (d + 1)"
    using c d by (simp add: length_py_range mult.commute flip: nat_mult_distrib)
  have "N - ?m = (P - c) * d"
    by (simp add: N algebra_simps)
  then have len2: "length (py_range ?m N) = nat (P - c) * nat d"
    using c d by (simp add: length_py_range nat_mult_distrib)
  have cc: "concat (?g1 @ ?g2) = py_range 0 N"
    using equal_sections_concat [OF len1] equal_sections_concat [OF len2]
      py_range_append [OF m] by simp
  have lg: "length (?g1 @ ?g2) = nat P"
    using c by (simp add: equal_sections_length)
  have sz: "length ((?g1 @ ?g2) ! k) = (if int k < c then nat (d + 1) else nat d)"
    if "k < nat P" for k
  proof (cases "int k < c")
    case True
    then have "k < nat c" by simp
    then show ?thesis
      using equal_sections_nth [OF len1, of k] True
      by (simp add: nth_append equal_sections_length)
  next
    case False
    then have "k - nat c < nat (P - c)" and "\<not> k < nat c"
      using that c by auto
    then show ?thesis
      using equal_sections_nth [OF len2, of "k - nat c"] False
      by (simp add: nth_append equal_sections_length)
  qed
  have bal: "length ((?g1 @ ?g2) ! k) \<le> length ((?g1 @ ?g2) ! l) + 1"
    if "k < nat P" "l < nat P" for k l
    using sz [OF that(1)] sz [OF that(2)] d by (simp add: nat_add_distrib split: if_splits)
  show ?thesis
    unfolding eq using cc lg sz bal False d
    by (simp add: py_range_def c_def d_def)
qed

theorem division_tasks_partition_witness:
  "\<exists>groups. division_tasks 7 3 = Inr groups \<and> groups = [[0, 1, 2], [3, 4], [5, 6]]
      \<and> concat groups = py_range 0 7"
  using division_tasks_partition [of 7 3]
  by (simp add: division_tasks_def np_split_def py_range_def upto_rec1 eval_nat_numeral)

section \<open>Properties of the subtree reducer\<close>

lemma and_then_Inr:
  "and_then r f = Inr y \<longleftrightarrow> (\<exists>x. r = Inr x \<and> f x = Inr y)"
  by (cases r) (simp_all add: and_then_def)

lemma and_then_simps:
  "and_then (Inl e) f = Inl e" "and_then (Inr x) f = f x"
  by (simp_all add: and_then_def)

lemma for_each_Inr:
  "for_each f xs = Inr ys \<Longrightarrow> length ys = length xs \<and> (\<forall>i < length xs. f (xs ! i) = Inr (ys ! i))"
proof (induction xs arbitrary: ys)
  case Nil
  then show ?case by simp
next
  case (Cons x xs)
  from Cons.prems obtain y ys' where y: "f x = Inr y" and ys': "for_each f xs = Inr ys'"
    and ys: "ys = y # ys'"
    by (auto simp: and_then_Inr)
  from Cons.IH [OF ys'] y ys show ?case
    by (auto simp: nth_Cons split: nat.splits)
qed

lemma fold_err_append:
  "fold_err f (xs @ ys) s = and_then (fold_err f xs s) (fold_err f ys)"
  by (induction xs arbitrary: s) (simp_all add: and_then_def split: sum.splits)

lemma stabilize_m_Inr:
  assumes "stabilize_m epsilon dm i (plans, ds) = Inr (plans', ds')"
  shows "i < length plans \<and> plans' = plans[i := stabilize (plans ! i) epsilon]"
  using assms by (auto simp: stabilize_m_def and_then_Inr Let_def split: if_splits)

lemma stabilize_loop:
  assumes "fold_err (stabilize_m epsilon dm) [0..<k] (plans, ds) = Inr (plans', ds')"
  shows "k \<le> length plans \<and> length plans' = length plans
         \<and> (\<forall>i < k. plans' ! i = stabilize (plans ! i) epsilon)
         \<and> (\<forall>i. k \<le> i \<longrightarrow> plans' ! i = plans ! i)"
  using assms
proof (induction k arbitrary: plans' ds')
  case 0
  then show ?case by simp
next
  case (Suc k)
  from Suc.prems obtain st where st: "fold_err (stabilize_m epsilon dm) [0..<k] (plans, ds) = Inr st"
    and step: "stabilize_m epsilon dm k st = Inr (plans', ds')"
    by (auto simp: fold_err_append and_then_Inr)
  obtain p1 d1 where st_eq: "st = (p1, d1)"
    by (cases st)
  note IH = Suc.IH [OF st [unfolded st_eq]]
  from step [unfolded st_eq] have k: "k < length p1" and p': "plans' = p1[k := stabilize (p1 ! k) epsilon]"
    by (auto dest: stabilize_m_Inr)
  show ?case
    using IH k p' by (auto simp: nth_list_update less_Suc_eq)
qed

lemma loop_subtree_n_Inr:
  assumes "loop_subtree_n S t G H nodesG nodesH list_m D_ij Pi method lambda_IBP rho epsilon
             pool_sizeMAM n = Inr out"
  shows "\<exists>per_m plans.
           for_each (subtree_m t H nodesH D_ij Pi
               [j \<leftarrow> [0..<length nodesG]. nodesG ! j \<in> set (successors G n)] n) list_m = Inr per_m
         \<and> solve_subtree S method lambda_IBP rho pool_sizeMAM (successors G n)
               (map fst per_m) (map (fst \<circ> snd \<circ> snd) per_m) = Inr (Some plans)
         \<and> length list_m \<le> length plans
         \<and> length (Pi_k out) = length plans
         \<and> (\<forall>i < length list_m. Pi_k out ! i = stabilize (plans ! i) epsilon)"
proof -
  let ?ni = "[j \<leftarrow> [0..<length nodesG]. nodesG ! j \<in> set (successors G n)]"
  from assms obtain per_m anc_n chosen where
    per_m: "for_each (subtree_m t H nodesH D_ij Pi ?ni n) list_m = Inr per_m" and
    chosen: "solve_subtree S method lambda_IBP rho pool_sizeMAM (successors G n)
               (map fst per_m) (map (fst \<circ> snd \<circ> snd) per_m) = Inr chosen" and
    rest: "(case chosen of
              None \<Rightarrow> Inl UnboundLocalError
            | Some plans \<Rightarrow>
                and_then (fold_err (stabilize_m epsilon (map (fst \<circ> snd) per_m)) [0..<length list_m]
                            (plans, replicate (length list_m) 0))
                  (\<lambda>st. Inr \<lparr>Pi_k = fst st, D_ij_t = snd st,
                      ancestor_m = concat (map (snd \<circ> snd \<circ> snd) per_m), ancestor_n = anc_n\<rparr>))
           = Inr out"
    unfolding loop_subtree_n_def Let_def and_then_Inr by blast
  from rest obtain plans where some: "chosen = Some plans"
    by (cases chosen) simp_all
  from rest [unfolded some] obtain st where
    st: "fold_err (stabilize_m epsilon (map (fst \<circ> snd) per_m)) [0..<length list_m]
           (plans, replicate (length list_m) 0) = Inr st" and
    out: "Pi_k out = fst st"
    by (auto simp: and_then_Inr)
  obtain p1 d1 where st_eq: "st = (p1, d1)"
    by (cases st)
  from stabilize_loop [OF st [unfolded st_eq]] out st_eq per_m chosen some
  show ?thesis
    by auto
qed

lemma subtree_m_marginal:
  assumes "subtree_m t H nodesH D_ij Pi children_ni n m = Inr r"
  shows "for_each (weight H m) (successors H m) = Inr (fst r)"
  using assms unfolding subtree_m_def Let_def and_then_Inr by auto

lemma entries_stabilize:
  "entries (stabilize P epsilon) =
     map (\<lambda>x. max epsilon x / sum_list (map (max epsilon) (entries P))) (entries P)"
  by (simp add: stabilize_def Let_def divide_def clip_def entries_def np_sum_def map_concat
      comp_def)

lemma sum_list_clipped_pos:
  fixes epsilon :: real
  assumes "0 < epsilon" and "xs \<noteq> []"
  shows "0 < sum_list (map (max epsilon) xs)"
proof -
  have "0 < epsilon * real (length xs)"
    using assms by simp
  also have "epsilon * real (length xs) = sum_list (map (\<lambda>x. epsilon) xs)"
    by (simp add: sum_list_triv)
  also have "\<dots> \<le> sum_list (map (max epsilon) xs)"
    by (rule sum_list_mono) simp
  finally show ?thesis .
qed


lemma stabilize_positive:
  assumes "0 < epsilon" and "x \<in> set (entries (stabilize P epsilon))"
  shows "0 < x"
proof -
  from assms(2) obtain y where y: "y \<in> set (entries P)"
    and x: "x = max epsilon y / sum_list (map (max epsilon) (entries P))"
    by (auto simp: entries_stabilize)
  from y have "entries P \<noteq> []" by auto
  with assms(1) have "0 < sum_list (map (max epsilon) (entries P))"
    by (rule sum_list_clipped_pos)
  moreover have "0 < max epsilon y"
    using assms(1) by simp
  ultimately show ?thesis
    unfolding x by simp
qed

lemma stabilize_fixed:
  assumes "\<forall>x \<in> set (entries P). epsilon \<le> x" and "np_sum P = 1"
  shows "stabilize P epsilon = P"
proof -
  have "map (map (max epsilon)) (rows P) = rows P"
    using assms(1) by (auto simp: entries_def intro!: map_idI simp: max_def)
  then have "clip P epsilon = P"
    by (simp add: clip_def)
  then show ?thesis
    using assms(2) by (simp add: stabilize_def divide_def)
qed

lemmas array_defs = shape0_def entries_def np_sum_def expand_dims_def clip_def divide_def scale_def
  index2_def take_rows_def take_cols_def slice_cols_def concatenate1_def broadcast_dim_def
  bcast_at_def np_multiply_def stabilize_def

lemmas tree_defs = successors_def predecessors_def weight_def first_of_def collect_ancestor_def

lemma rare_run:
  "loop_subtree_n S 0 G_single H_rare [1] [1, 2] [0] D_rare Pi_rare method lambda_IBP rho (1 / 1000)
     pool_sizeMAM 0
   = Inr \<lparr>Pi_k = [NDArray 2 [[2 / 2001, 1999 / 2001]]], D_ij_t = [17999 / 2001],
          ancestor_m = [], ancestor_n = []\<rparr>"
  by (simp add: loop_subtree_n_def subtree_m_def solve_subtree_def stabilize_m_def
      G_single_def H_rare_def D_rare_def Pi_rare_def array_defs tree_defs and_then_def Let_def)






text \<open>
  Claim C1 fails on the code. For \<open>G_single\<close> against \<open>H_rare\<close> the marginal
  \<open>[0.0005, 0.9995]\<close> is clipped to \<open>[0.001, 0.9995]\<close>, of total 1.0005, and the
  renormalization divides the clipped entry to \<open>2/2001 < 0.001\<close>: an entry of the
  returned plan is below the floor.
\<close>

theorem floor_violated_after_renormalization:
  "loop_subtree_n no_solvers 0 G_single H_rare [1] [1, 2] [0] D_rare Pi_rare ''LP'' 25 1000
      (1 / 1000) 1 0
     = Inr \<lparr>Pi_k = [NDArray 2 [[2 / 2001, 1999 / 2001]]], D_ij_t = [17999 / 2001],
          ancestor_m = [], ancestor_n = []\<rparr>
   \<and> (2 / 2001 :: real) < 1 / 1000"
  by (rule conjI, rule rare_run) simp

text \<open>
  Claim C2, amended. For a node \<open>n\<close> with exactly one child, whenever \<open>_loop_subtree_n\<close>
  returns, the plan returned for each candidate \<open>m\<close> is \<open>m\<close>'s marginal \<open>b_m\<close> as a single
  row, clipped to \<open>epsilon\<close> and renormalized; it is \<open>b_m\<close> itself when every weight is at
  least \<open>epsilon\<close> and the weights sum to 1. No solver is called: the result is the same
  for every solver, method name and solver parameter.
\<close>

theorem one_child_plan_is_stabilized_marginal:
  assumes "length (successors G n) = 1"
    and "loop_subtree_n S t G H nodesG nodesH list_m D_ij Pi method lambda_IBP rho epsilon
           pool_sizeMAM n = Inr out"
    and "i_m < length list_m"
  shows "\<exists>b_m. for_each (weight H (list_m ! i_m)) (successors H (list_m ! i_m)) = Inr b_m
           \<and> Pi_k out ! i_m = stabilize (expand_dims b_m) epsilon
           \<and> ((\<forall>w \<in> set b_m. epsilon \<le> w) \<and> sum_list b_m = 1
                 \<longrightarrow> Pi_k out ! i_m = expand_dims b_m)
           \<and> (\<forall>S' method' lambda_IBP' rho' pool_sizeMAM'.
                 loop_subtree_n S' t G H nodesG nodesH list_m D_ij Pi method' lambda_IBP' rho' epsilon
                   pool_sizeMAM' n = Inr out)"
proof -
  let ?ni = "[j \<leftarrow> [0..<length nodesG]. nodesG ! j \<in> set (successors G n)]"
  from loop_subtree_n_Inr [OF assms(2)] obtain per_m plans where
    per_m: "for_each (subtree_m t H nodesH D_ij Pi ?ni n) list_m = Inr per_m" and
    plans: "solve_subtree S method lambda_IBP rho pool_sizeMAM (successors G n)
               (map fst per_m) (map (fst \<circ> snd \<circ> snd) per_m) = Inr (Some plans)" and
    stab: "\<forall>i < length list_m. Pi_k out ! i = stabilize (plans ! i) epsilon"
    by blast
  from for_each_Inr [OF per_m] assms(3) have
    len: "length per_m = length list_m" and
    at: "subtree_m t H nodesH D_ij Pi ?ni n (list_m ! i_m) = Inr (per_m ! i_m)"
    by simp_all
  let ?b = "fst (per_m ! i_m)"
  have b: "for_each (weight H (list_m ! i_m)) (successors H (list_m ! i_m)) = Inr ?b"
    using at by (rule subtree_m_marginal)
  from plans assms(1) have "plans = map expand_dims (map fst per_m)"
    by (simp add: solve_subtree_def)
  with stab assms(3) len have eq: "Pi_k out ! i_m = stabilize (expand_dims ?b) epsilon"
    by simp
  have fixed: "Pi_k out ! i_m = expand_dims ?b" if "\<forall>w \<in> set ?b. epsilon \<le> w" "sum_list ?b = 1"
    unfolding eq using that by (intro stabilize_fixed) (simp_all add: expand_dims_def entries_def np_sum_def)
  have indep: "loop_subtree_n S' t G H nodesG nodesH list_m D_ij Pi method' lambda_IBP' rho' epsilon
                   pool_sizeMAM' n
     = loop_subtree_n S t G H nodesG nodesH list_m D_ij Pi method lambda_IBP rho epsilon
           pool_sizeMAM n" for S' method' lambda_IBP' rho' pool_sizeMAM'
    using assms(1) by (simp add: loop_subtree_n_def solve_subtree_def Let_def)
  show ?thesis
    using b eq fixed indep assms(2) by auto
qed

theorem one_child_plan_is_stabilized_marginal_witness:
  "length (successors G_single 0) = 1
   \<and> (\<exists>b_m. for_each (weight H_rare 0) (successors H_rare 0) = Inr b_m
         \<and> [NDArray 2 [[2 / 2001, 1999 / 2001]]] ! 0 = stabilize (expand_dims b_m) (1 / 1000))
   \<and> loop_subtree_n no_solvers 0 G_single H_rare [1] [1, 2] [0] D_rare Pi_rare ''MAM'' 25 1000
        (1 / 1000) 1 0
      = loop_subtree_n no_solvers 0 G_single H_rare [1] [1, 2] [0] D_rare Pi_rare ''LP'' 25 1000
        (1 / 1000) 2 0"
proof -
  have one: "length (successors G_single 0) = 1"
    by (simp add: G_single_def successors_def)
  note run = rare_run [of no_solvers "''MAM''" 25 1000 1]
  from one_child_plan_is_stabilized_marginal [OF one run, where i_m = 0]
  obtain b_m where "for_each (weight H_rare 0) (successors H_rare 0) = Inr b_m"
    and "[NDArray 2 [[2 / 2001, 1999 / 2001]]] ! 0 = stabilize (expand_dims b_m) (1 / 1000)"
    by auto
  moreover have "loop_subtree_n no_solvers 0 G_single H_rare [1] [1, 2] [0] D_rare Pi_rare ''MAM'' 25
        1000 (1 / 1000) 1 0
      = loop_subtree_n no_solvers 0 G_single H_rare [1] [1, 2] [0] D_rare Pi_rare ''LP'' 25 1000
        (1 / 1000) 2 0"
    unfolding rare_run ..
  ultimately show ?thesis
    using one by blast
qed

text \<open>
  Claim C2 as stated fails: \<open>G_single\<close>'s root has one child, \<open>H_rare\<close>'s root has the
  marginal \<open>[0.0005, 0.9995]\<close>, and the plan returned is not that marginal as a row.
\<close>

theorem one_child_plan_counterexample:
  "length (successors G_single 0) = 1
   \<and> for_each (weight H_rare 0) (successors H_rare 0) = Inr [1 / 2000, 1999 / 2000]
   \<and> loop_subtree_n no_solvers 0 G_single H_rare [1] [1, 2] [0] D_rare Pi_rare ''MAM'' 25 1000
        (1 / 1000) 1 0
      = Inr \<lparr>Pi_k = [NDArray 2 [[2 / 2001, 1999 / 2001]]], D_ij_t = [17999 / 2001],
          ancestor_m = [], ancestor_n = []\<rparr>
   \<and> NDArray 2 [[2 / 2001, 1999 / 2001]] \<noteq> expand_dims [1 / 2000, 1999 / 2000]"
proof -
  have "length (successors G_single 0) = 1"
    by (simp add: G_single_def successors_def)
  moreover have "for_each (weight H_rare 0) (successors H_rare 0) = Inr [1 / 2000, 1999 / 2000]"
    by (simp add: H_rare_def tree_defs and_then_def)
  moreover note rare_run [of no_solvers "''MAM''" 25 1000 1]
  moreover have "NDArray 2 [[2 / 2001, 1999 / 2001]] \<noteq> expand_dims [1 / 2000, 1999 / 2000]"
    by (simp add: expand_dims_def)
  ultimately show ?thesis
    by (intro conjI)
qed

lemma and_then_Inl:
  "and_then r f = Inl e \<longleftrightarrow> r = Inl e \<or> (\<exists>x. r = Inr x \<and> f x = Inl e)"
  by (cases r) (simp_all add: and_then_def)

lemma for_each_Inl:
  "for_each f xs = Inl e \<Longrightarrow> \<exists>x \<in> set xs. f x = Inl e"
  by (induction xs) (auto simp: and_then_Inl)

lemma fold_err_Inl:
  "fold_err f xs s = Inl e \<Longrightarrow> \<exists>x s'. f x s' = Inl e"
  by (induction xs arbitrary: s) (auto simp: and_then_Inl)

lemma weight_error: "weight T m i = Inl e \<Longrightarrow> e = KeyError"
  by (auto simp: weight_def split: option.splits)

lemma first_of_error: "first_of xs = Inl e \<Longrightarrow> e = IndexError"
  by (auto simp: first_of_def split: list.splits)

lemma collect_ancestor_error: "collect_ancestor t T v = Inl e \<Longrightarrow> e = IndexError"
  by (auto simp: collect_ancestor_def and_then_Inl dest: first_of_error split: if_splits)

lemma take_rows_error: "take_rows A idx = Inl e \<Longrightarrow> e = IndexError"
  by (auto simp: take_rows_def split: if_splits)

lemma take_cols_error: "take_cols A idx = Inl e \<Longrightarrow> e = IndexError"
  by (auto simp: take_cols_def split: if_splits)

lemma index2_error: "index2 A i j = Inl e \<Longrightarrow> e = IndexError"
  by (auto simp: index2_def split: if_splits)

lemma subtree_m_error:
  assumes "subtree_m t H nodesH D_ij Pi children_ni n m = Inl e"
  shows "e = IndexError \<or> e = KeyError"
  using assms
  by (auto simp: subtree_m_def Let_def and_then_Inl
      dest: for_each_Inl weight_error collect_ancestor_error take_rows_error take_cols_error
        index2_error)

lemma concatenate1_error: "concatenate1 As = Inl e \<Longrightarrow> e = ValueError"
  by (auto simp: concatenate1_def split: list.splits if_splits)

lemma np_multiply_error: "np_multiply A B = Inl e \<Longrightarrow> e = ValueError"
  by (auto simp: np_multiply_def split: option.splits)

lemma solve_subtree_error:
  assumes "solve_subtree S method lambda_IBP rho pool_sizeMAM children_n b c = Inl e"
  shows "e = ValueError \<or> e = IndexError"
  using assms
  by (auto simp: solve_subtree_def Let_def and_then_Inl dest: concatenate1_error for_each_Inl
      split: if_splits)

lemma stabilize_m_error:
  assumes "stabilize_m epsilon dm i st = Inl e"
  shows "e = IndexError \<or> e = ValueError"
  using assms
  by (auto simp: stabilize_m_def Let_def and_then_Inl dest: np_multiply_error
      split: if_splits prod.splits)

lemma solve_subtree_defined:
  assumes "children_n \<noteq> []" and "method \<in> {''LP'', ''MAM'', ''IBP''}"
  shows "solve_subtree S method lambda_IBP rho pool_sizeMAM children_n b c \<noteq> Inr None"
proof -
  from assms(1) have "length children_n = 1 \<or> length children_n > 1"
    by (cases children_n) auto
  with assms(2) show ?thesis
    unfolding solve_subtree_def Let_def
    by (auto simp: and_then_def split: sum.splits)
qed

lemma loop_subtree_n_Unbound:
  assumes "loop_subtree_n S t G H nodesG nodesH list_m D_ij Pi method lambda_IBP rho epsilon
             pool_sizeMAM n = Inl UnboundLocalError"
  shows "\<exists>b c. solve_subtree S method lambda_IBP rho pool_sizeMAM (successors G n) b c = Inr None"
proof -
  let ?ni = "[j \<leftarrow> [0..<length nodesG]. nodesG ! j \<in> set (successors G n)]"
  have 1: "for_each (subtree_m t H nodesH D_ij Pi ?ni n) list_m \<noteq> Inl UnboundLocalError"
    by (auto dest!: for_each_Inl subtree_m_error)
  have 2: "collect_ancestor t G n \<noteq> Inl UnboundLocalError"
    by (auto dest: collect_ancestor_error)
  have 3: "solve_subtree S method lambda_IBP rho pool_sizeMAM (successors G n) b c
      \<noteq> Inl UnboundLocalError" for b c
    by (auto dest: solve_subtree_error)
  have 4: "fold_err (stabilize_m epsilon dm) xs st \<noteq> Inl UnboundLocalError" for dm xs st
    by (auto dest!: fold_err_Inl stabilize_m_error)
  from assms show ?thesis
    using 1 2 3 4
    by (auto simp: loop_subtree_n_def Let_def and_then_Inl split: option.splits)
qed

text \<open>
  Claim C10. If \<open>n\<close> has no child, \<open>_loop_subtree_n\<close> always raises, and it raises
  \<open>UnboundLocalError\<close> (the plan list \<open>Pi_k\<close> was never assigned) as soon as the first
  loop and the ancestor lookup went through. If \<open>n\<close> has at least one child and the method
  is one of LP, MAM, IBP (which \<open>reduction_tree\<close> asserts before the backward pass), one
  of the branches assigns \<open>Pi_k\<close> and \<open>UnboundLocalError\<close> is never raised.
\<close>

theorem Pi_k_undefined_iff_no_children:
  "(successors G n = [] \<longrightarrow>
      isl (loop_subtree_n S t G H nodesG nodesH list_m D_ij Pi method lambda_IBP rho epsilon
             pool_sizeMAM n))
   \<and> (successors G n = []
        \<and> for_each (subtree_m t H nodesH D_ij Pi [] n) list_m = Inr per_m
        \<and> (t > 0 \<longrightarrow> predecessors G n \<noteq> []) \<longrightarrow>
      loop_subtree_n S t G H nodesG nodesH list_m D_ij Pi method lambda_IBP rho epsilon
             pool_sizeMAM n = Inl UnboundLocalError)
   \<and> (successors G n \<noteq> [] \<and> method \<in> {''LP'', ''MAM'', ''IBP''} \<longrightarrow>
      solve_subtree S method lambda_IBP rho pool_sizeMAM (successors G n) b c \<noteq> Inr None
      \<and> loop_subtree_n S t G H nodesG nodesH list_m D_ij Pi method lambda_IBP rho epsilon
             pool_sizeMAM n \<noteq> Inl UnboundLocalError)"
proof (intro conjI impI)
  assume "successors G n = []"
  then show "isl (loop_subtree_n S t G H nodesG nodesH list_m D_ij Pi method lambda_IBP rho epsilon
             pool_sizeMAM n)"
    by (simp add: loop_subtree_n_def solve_subtree_def and_then_def Let_def split: sum.splits)
next
  assume a: "successors G n = []
        \<and> for_each (subtree_m t H nodesH D_ij Pi [] n) list_m = Inr per_m
        \<and> (t > 0 \<longrightarrow> predecessors G n \<noteq> [])"
  then have "\<exists>a. collect_ancestor t G n = Inr a"
    by (cases "predecessors G n") (simp_all add: collect_ancestor_def first_of_def and_then_def)
  with a show "loop_subtree_n S t G H nodesG nodesH list_m D_ij Pi method lambda_IBP rho epsilon
             pool_sizeMAM n = Inl UnboundLocalError"
    by (auto simp: loop_subtree_n_def solve_subtree_def and_then_def Let_def)
next
  assume a: "successors G n \<noteq> [] \<and> method \<in> {''LP'', ''MAM'', ''IBP''}"
  then show "solve_subtree S method lambda_IBP rho pool_sizeMAM (successors G n) b c \<noteq> Inr None"
    by (intro solve_subtree_defined) simp_all
next
  assume a: "successors G n \<noteq> [] \<and> method \<in> {''LP'', ''MAM'', ''IBP''}"
  show "loop_subtree_n S t G H nodesG nodesH list_m D_ij Pi method lambda_IBP rho epsilon
             pool_sizeMAM n \<noteq> Inl UnboundLocalError"
  proof
    assume "loop_subtree_n S t G H nodesG nodesH list_m D_ij Pi method lambda_IBP rho epsilon
             pool_sizeMAM n = Inl UnboundLocalError"
    then obtain b' c' where
      "solve_subtree S method lambda_IBP rho pool_sizeMAM (successors G n) b' c' = Inr None"
      by (blast dest: loop_subtree_n_Unbound)
    moreover have "solve_subtree S method lambda_IBP rho pool_sizeMAM (successors G n) b' c' \<noteq> Inr None"
      using a by (intro solve_subtree_defined) simp_all
    ultimately show False
      by contradiction
  qed
qed

lemma childless_run:
  "loop_subtree_n S 1 G_single H_chain [1] [2] [1] (NDArray 1 [[4]])
       (NDArray 3 [[1, 0, 0], [0, 1, 0]]) method lambda_IBP rho epsilon pool_sizeMAM 1
     = Inl UnboundLocalError"
  by (simp add: loop_subtree_n_def subtree_m_def solve_subtree_def
      G_single_def H_chain_def array_defs tree_defs and_then_def Let_def)

theorem Pi_k_undefined_iff_no_children_witness:
  "successors G_single 1 = []
   \<and> loop_subtree_n no_solvers 1 G_single H_chain [1] [2] [1] (NDArray 1 [[4]])
       (NDArray 3 [[1, 0, 0], [0, 1, 0]]) ''LP'' 25 1000 (1 / 1000) 1 1 = Inl UnboundLocalError
   \<and> successors G_single 0 \<noteq> [] \<and> ''LP'' \<in> {''LP'', ''MAM'', ''IBP''}
   \<and> loop_subtree_n no_solvers 0 G_single H_rare [1] [1, 2] [0] D_rare Pi_rare ''LP'' 25 1000
        (1 / 1000) 1 0 \<noteq> Inl UnboundLocalError"
proof -
  have none: "successors G_single 1 = []" and some: "successors G_single 0 \<noteq> []"
    by (simp_all add: G_single_def successors_def)
  have m: "''LP'' \<in> {''LP'', ''MAM'', ''IBP''}"
    by simp
  from Pi_k_undefined_iff_no_children [of G_single 0 no_solvers 0 H_rare "[1]" "[1, 2]" "[0]"
      D_rare Pi_rare "''LP''" 25 1000 "1 / 1000" 1 "[]" "[]" "[]"] some m
  have "loop_subtree_n no_solvers 0 G_single H_rare [1] [1, 2] [0] D_rare Pi_rare ''LP'' 25 1000
        (1 / 1000) 1 0 \<noteq> Inl UnboundLocalError"
    by blast
  with none some m childless_run [of no_solvers "''LP''" 25 1000 "1 / 1000" 1]
  show ?thesis
    by (intro conjI)
qed

section \<open>Properties of the forward rebuild pass\<close>

lemma index2_entry:
  "in_bounds A (j, i) \<Longrightarrow> index2 A j i = Inr (entry A j i)"
  by (simp add: index2_def in_bounds_def entry_def)

lemma setitem2_props:
  assumes "well_formed A" and "in_bounds A (j, i)"
  shows "\<exists>A'. setitem2 A j i v = Inr A' \<and> well_formed A' \<and> same_shape A' A
           \<and> (\<forall>a b. entry A' a b = (if (a, b) = (j, i) then v else entry A a b))"
proof -
  let ?A' = "NDArray (ncols A) ((rows A)[j := (rows A ! j)[i := v]])"
  from assms have j: "j < length (rows A)" and i: "i < length (rows A ! j)"
    by (simp_all add: in_bounds_def shape0_def well_formed_def list_all_length)
  have "setitem2 A j i v = Inr ?A'"
    using assms(2) by (simp add: setitem2_def in_bounds_def)
  moreover have "well_formed ?A'"
    using assms(1) j by (auto simp: well_formed_def list_all_length nth_list_update)
  moreover have "same_shape ?A' A"
    by (simp add: same_shape_def shape0_def)
  moreover have "entry ?A' a b = (if (a, b) = (j, i) then v else entry A a b)" for a b
    using j i by (auto simp: entry_def nth_list_update)
  ultimately show ?thesis
    by blast
qed

lemma multiply_cell_props:
  assumes "well_formed A" and "in_bounds A tgt" and "in_bounds A src"
  shows "\<exists>A'. multiply_cell A tgt src = Inr A' \<and> well_formed A' \<and> same_shape A' A
           \<and> (\<forall>a b. entry A' a b
                = (if (a, b) = tgt then entry A (fst tgt) (snd tgt) * entry A (fst src) (snd src)
                   else entry A a b))"
proof -
  obtain j i where tgt: "tgt = (j, i)" by (cases tgt)
  obtain n m where src: "src = (n, m)" by (cases src)
  from setitem2_props [OF assms(1) assms(2) [unfolded tgt], of "entry A j i * entry A n m"]
  obtain A' where "setitem2 A j i (entry A j i * entry A n m) = Inr A'" and "well_formed A'"
    and "same_shape A' A"
    and "\<And>a b. entry A' a b = (if (a, b) = (j, i) then entry A j i * entry A n m else entry A a b)"
    by blast
  moreover have "multiply_cell A tgt src = setitem2 A j i (entry A j i * entry A n m)"
    using assms(2,3) by (simp add: multiply_cell_def tgt src index2_entry and_then_def)
  ultimately show ?thesis
    by (auto simp: tgt src)
qed

lemma in_bounds_same_shape: "same_shape A' A \<Longrightarrow> in_bounds A' c = in_bounds A c"
  by (simp add: same_shape_def in_bounds_def)

lemma multiply_cells_props:
  assumes "well_formed A" and "distinct cs"
    and "\<forall>c \<in> set cs. in_bounds A c \<and> in_bounds A (src c) \<and> src c \<notin> set cs"
  shows "\<exists>A'. fold_err (\<lambda>c B. multiply_cell B c (src c)) cs A = Inr A' \<and> well_formed A'
           \<and> same_shape A' A
           \<and> (\<forall>a b. entry A' a b
                = (if (a, b) \<in> set cs
                   then entry A a b * entry A (fst (src (a, b))) (snd (src (a, b)))
                   else entry A a b))"
  using assms
proof (induction cs arbitrary: A)
  case Nil
  then show ?case by (simp add: same_shape_def)
next
  case (Cons c cs)
  from Cons.prems have c: "in_bounds A c" "in_bounds A (src c)" "src c \<noteq> c" "src c \<notin> set cs"
    "c \<notin> set cs"
    by auto
  from multiply_cell_props [OF Cons.prems(1) c(1) c(2)] obtain A1 where
    A1: "multiply_cell A c (src c) = Inr A1" and wf1: "well_formed A1" and sh1: "same_shape A1 A"
    and e1: "\<And>a b. entry A1 a b
        = (if (a, b) = c then entry A (fst c) (snd c) * entry A (fst (src c)) (snd (src c))
           else entry A a b)"
    by blast
  have pre: "\<forall>d \<in> set cs. in_bounds A1 d \<and> in_bounds A1 (src d) \<and> src d \<notin> set cs"
    using Cons.prems(3) by (auto simp: in_bounds_same_shape [OF sh1])
  from Cons.prems(2) have dist: "distinct cs" by simp
  from Cons.IH [OF wf1 dist pre] obtain A' where
    A': "fold_err (\<lambda>c B. multiply_cell B c (src c)) cs A1 = Inr A'" and wf': "well_formed A'"
    and sh': "same_shape A' A1"
    and e': "\<And>a b. entry A' a b
        = (if (a, b) \<in> set cs
           then entry A1 a b * entry A1 (fst (src (a, b))) (snd (src (a, b)))
           else entry A1 a b)"
    by blast
  have run: "fold_err (\<lambda>c B. multiply_cell B c (src c)) (c # cs) A = Inr A'"
    by (simp add: A1 A' and_then_def)
  have shape: "same_shape A' A"
    using sh' sh1 by (simp add: same_shape_def)
  have "entry A' a b
        = (if (a, b) \<in> set (c # cs)
           then entry A a b * entry A (fst (src (a, b))) (snd (src (a, b)))
           else entry A a b)" for a b
  proof (cases "(a, b) \<in> set cs")
    case True
    then have ne: "(a, b) \<noteq> c" and "src (a, b) \<noteq> c"
      using c(5) Cons.prems(3) by auto
    then have "(fst (src (a, b)), snd (src (a, b))) \<noteq> c"
      by simp
    with True ne show ?thesis
      unfolding e' e1 by simp
  next
    case False
    then show ?thesis
      unfolding e' e1 by (cases c) auto
  qed
  with run wf' shape show ?case
    by blast
qed

lemma and_then_return: "and_then r Inr = r"
  by (cases r) (simp_all add: and_then_def)

lemma fold_err_Nil: "fold_err f [] = Inr"
  by (rule ext) simp

lemma fold_err_single: "fold_err f [x] = f x"
  by (rule ext) (simp add: fold_err_Nil and_then_return)

lemma fold_err_cong:
  "(\<And>x s. x \<in> set xs \<Longrightarrow> f x s = g x s) \<Longrightarrow> fold_err f xs s = fold_err g xs s"
  by (induction xs arbitrary: s) (simp_all add: and_then_def split: sum.splits)

lemma fold_err_map: "fold_err f (map h xs) s = fold_err (\<lambda>x. f (h x)) xs s"
  by (induction xs arbitrary: s) (simp_all add: and_then_def split: sum.splits)

lemma fold_err_concat:
  "fold_err f (concat xss) s = fold_err (\<lambda>xs. fold_err f xs) xss s"
  by (induction xss arbitrary: s) (simp_all add: fold_err_append and_then_def split: sum.splits)

lemma rebuild_pair_single:
  assumes "predecessors H i1 = [m]" and "predecessors G j1 = [n]"
  shows "rebuild_pair H G i1 j1 A = multiply_cell A (j1, i1) (parents H G (j1, i1))"
  using assms by (simp add: rebuild_pair_def parents_def parent_def fold_err_single del: fold_err.simps)

lemma set_cells: "set (cells list_i1 list_j1) = set list_j1 \<times> set list_i1"
  by (auto simp: cells_def)

lemma distinct_cells:
  "distinct list_i1 \<Longrightarrow> distinct list_j1 \<Longrightarrow> distinct (cells list_i1 list_j1)"
  by (induction list_i1) (auto simp: cells_def distinct_map inj_on_def)

lemma set_nodes_at_stage: "set (nodes_at_stage T s) = {v \<in> set (nodes T). stage T v = s}"
  by (auto simp: nodes_at_stage_def)

lemma distinct_nodes_at_stage: "distinct (nodes T) \<Longrightarrow> distinct (nodes_at_stage T s)"
  by (simp add: nodes_at_stage_def)

lemma rebuild_stage_cells:
  assumes "\<forall>i1 \<in> set list_i1. \<exists>m. predecessors H i1 = [m]"
    and "\<forall>j1 \<in> set list_j1. \<exists>n. predecessors G j1 = [n]"
  shows "rebuild_stage H G list_i1 list_j1 A
     = fold_err (\<lambda>c B. multiply_cell B c (parents H G c)) (cells list_i1 list_j1) A"
proof -
  have pair: "rebuild_pair H G i1 j1 B = multiply_cell B (j1, i1) (parents H G (j1, i1))"
    if "i1 \<in> set list_i1" "j1 \<in> set list_j1" for i1 j1 B
  proof -
    from that assms obtain m n where "predecessors H i1 = [m]" "predecessors G j1 = [n]"
      by blast
    then show ?thesis
      by (rule rebuild_pair_single)
  qed
  show ?thesis
    unfolding rebuild_stage_def cells_def fold_err_concat fold_err_map
    by (intro fold_err_cong) (simp add: pair)
qed

lemma upto_from_one: "[1..int k] = map int [1..<Suc k]"
proof (induction k)
  case 0
  show ?case by simp
next
  case (Suc k)
  have "[1..int (Suc k)] = [1..int (Suc k) - 1] @ [int (Suc k)]"
    by (rule upto_rec2) simp
  with Suc show ?case by simp
qed

lemma py_range_stages: "py_range 1 (T + 1) = map int [1..<Suc (nat T)]"
proof (cases "0 \<le> T")
  case True
  then have "[1..T] = [1..int (nat T)]"
    by simp
  then show ?thesis
    unfolding py_range_def upto_from_one by simp
next
  case False
  then show ?thesis by (simp add: py_range_def)
qed

lemma set_cells_stage:
  "set (cells (nodes_at_stage H s) (nodes_at_stage G s)) = {c. stage_pair H G s c}"
  by (auto simp: set_cells set_nodes_at_stage stage_pair_def)

lemma rebuild_stage_step:
  assumes H: "rooted_levelled H" and G: "rooted_levelled G"
    and bG: "\<forall>j \<in> set (nodes G). j < shape0 Pi" and bH: "\<forall>i \<in> set (nodes H). i < ncols Pi"
    and inv: "rebuilt_upto H G Pi k A"
  shows "\<exists>A'. rebuild_stage H G (nodes_at_stage H (int (Suc k))) (nodes_at_stage G (int (Suc k))) A
             = Inr A' \<and> rebuilt_upto H G Pi (Suc k) A'"
proof -
  let ?s = "int (Suc k)"
  let ?li = "nodes_at_stage H ?s" and ?lj = "nodes_at_stage G ?s"
  let ?cs = "cells ?li ?lj"
  from inv have wfA: "well_formed A" and shA: "same_shape A Pi" and root: "entry A 0 0 = 1"
    and prev: "\<And>j i s. 1 \<le> s \<Longrightarrow> s \<le> int k \<Longrightarrow> stage_pair H G s (j, i) \<Longrightarrow>
            entry A j i = chain_product H G Pi (nat (stage G j)) j i"
    and rest: "\<And>j i. \<not> (\<exists>s. 1 \<le> s \<and> s \<le> int k \<and> stage_pair H G s (j, i)) \<Longrightarrow> (j, i) \<noteq> (0, 0) \<Longrightarrow>
            entry A j i = entry Pi j i"
    unfolding rebuilt_upto_def by blast+
  have parH: "\<exists>p \<in> set (nodes H). predecessors H i = [p] \<and> stage H p = int k"
    if "i \<in> set ?li" for i
    using that H by (auto simp: rooted_levelled_def set_nodes_at_stage)
  have parG: "\<exists>p \<in> set (nodes G). predecessors G j = [p] \<and> stage G p = int k"
    if "j \<in> set ?lj" for j
    using that G by (auto simp: rooted_levelled_def set_nodes_at_stage)
  have eq: "rebuild_stage H G ?li ?lj A
      = fold_err (\<lambda>c B. multiply_cell B c (parents H G c)) ?cs A"
    by (intro rebuild_stage_cells) (use parH parG in blast)+
  have par: "stage_pair H G (int k) (parents H G c)" if "c \<in> set ?cs" for c
  proof -
    from that have "snd c \<in> set ?li" and "fst c \<in> set ?lj"
      by (auto simp: set_cells)
    with parH [of "snd c"] parG [of "fst c"] show ?thesis
      by (auto simp: stage_pair_def parents_def parent_def)
  qed
  have dist: "distinct ?cs"
    using H G by (intro distinct_cells distinct_nodes_at_stage) (simp_all add: rooted_levelled_def)
  have bounds: "in_bounds A c" if "fst c \<in> set (nodes G)" "snd c \<in> set (nodes H)" for c
    using that bG bH shA by (simp add: in_bounds_def same_shape_def)
  have pre: "\<forall>c \<in> set ?cs. in_bounds A c \<and> in_bounds A (parents H G c) \<and> parents H G c \<notin> set ?cs"
  proof
    fix c assume c: "c \<in> set ?cs"
    from c have "in_bounds A c"
      by (intro bounds) (auto simp: set_cells set_nodes_at_stage)
    moreover from par [OF c] have "in_bounds A (parents H G c)"
      by (intro bounds) (simp_all add: stage_pair_def)
    moreover from par [OF c] have "parents H G c \<notin> set ?cs"
      by (auto simp: set_cells_stage stage_pair_def)
    ultimately show "in_bounds A c \<and> in_bounds A (parents H G c) \<and> parents H G c \<notin> set ?cs"
      by blast
  qed
  from multiply_cells_props [OF wfA dist pre] obtain A' where
    run: "fold_err (\<lambda>c B. multiply_cell B c (parents H G c)) ?cs A = Inr A'"
    and wf': "well_formed A'" and sh': "same_shape A' A"
    and e': "\<And>a b. entry A' a b
        = (if (a, b) \<in> set ?cs
           then entry A a b * entry A (fst (parents H G (a, b))) (snd (parents H G (a, b)))
           else entry A a b)"
    by blast
  have zero: "\<not> stage_pair H G s (0, 0)" if "1 \<le> s" for s
    using that G by (auto simp: stage_pair_def rooted_levelled_def)
  have new: "entry A' j i = chain_product H G Pi (nat (stage G j)) j i"
    if c: "stage_pair H G ?s (j, i)" for j i
  proof -
    from c have mem: "(j, i) \<in> set ?cs"
      by (simp add: set_cells_stage)
    from c have sj: "stage G j = ?s"
      by (simp add: stage_pair_def)
    have "(j, i) \<noteq> (0, 0)"
    proof
      assume "(j, i) = (0, 0)"
      with c have "stage_pair H G ?s (0, 0)" by simp
      with zero [of ?s] show False by simp
    qed
    moreover have "\<not> (\<exists>s. 1 \<le> s \<and> s \<le> int k \<and> stage_pair H G s (j, i))"
      using c by (auto simp: stage_pair_def)
    ultimately have old: "entry A j i = entry Pi j i"
      by (intro rest)
    have up: "entry A (parent G j) (parent H i) = chain_product H G Pi k (parent G j) (parent H i)"
    proof (cases k)
      case 0
      from par [OF mem] have "stage G (parent G j) = 0" "parent G j \<in> set (nodes G)"
        "stage H (parent H i) = 0" "parent H i \<in> set (nodes H)"
        by (simp_all add: stage_pair_def parents_def 0)
      with H G have "parent G j = 0" "parent H i = 0"
        by (auto simp: rooted_levelled_def)
      with root 0 show ?thesis by simp
    next
      case (Suc k')
      from par [OF mem] have p: "stage_pair H G (int k) (parent G j, parent H i)"
        by (simp add: parents_def)
      then have st: "stage G (parent G j) = int k"
        by (simp add: stage_pair_def)
      from Suc have "1 \<le> int k"
        by simp
      then have "entry A (parent G j) (parent H i)
          = chain_product H G Pi (nat (stage G (parent G j))) (parent G j) (parent H i)"
        using p by (intro prev [of "int k"]) simp_all
      then show ?thesis
        unfolding st by simp
    qed
    have "nat (stage G j) = Suc k"
      using sj by simp
    with mem old up show ?thesis
      unfolding e' by (simp add: parents_def)
  qed
  have keep: "entry A' j i = entry A j i" if "\<not> stage_pair H G ?s (j, i)" for j i
    using that unfolding e' by (simp add: set_cells_stage)
  have "rebuilt_upto H G Pi (Suc k) A'"
    unfolding rebuilt_upto_def
  proof (intro conjI allI impI)
    show "well_formed A'" by (rule wf')
    show "same_shape A' Pi"
      using sh' shA by (simp add: same_shape_def)
    show "entry A' 0 0 = 1"
      using keep [of 0 0] zero [of ?s] root by simp
  next
    fix j i assume "\<exists>s. 1 \<le> s \<and> s \<le> int (Suc k) \<and> stage_pair H G s (j, i)"
    then obtain s where s: "1 \<le> s" "s \<le> int (Suc k)" "stage_pair H G s (j, i)"
      by blast
    show "entry A' j i = chain_product H G Pi (nat (stage G j)) j i"
    proof (cases "s = ?s")
      case True
      with s(3) show ?thesis by (intro new) simp
    next
      case False
      with s have le: "s \<le> int k" by simp
      from False s(3) have "\<not> stage_pair H G ?s (j, i)"
        by (auto simp: stage_pair_def)
      then have "entry A' j i = entry A j i"
        by (rule keep)
      with prev [OF s(1) le s(3)] show ?thesis by simp
    qed
  next
    fix j i
    assume a: "\<not> (\<exists>s. 1 \<le> s \<and> s \<le> int (Suc k) \<and> stage_pair H G s (j, i)) \<and> (j, i) \<noteq> (0, 0)"
    then have "\<not> stage_pair H G ?s (j, i)"
      by auto
    then have "entry A' j i = entry A j i"
      by (rule keep)
    moreover from a have "entry A j i = entry Pi j i"
      by (intro rest) auto
    ultimately show "entry A' j i = entry Pi j i"
      by simp
  qed
  with eq run show ?thesis
    by simp
qed

lemma rebuild_loop:
  assumes H: "rooted_levelled H" and G: "rooted_levelled G"
    and bG: "\<forall>j \<in> set (nodes G). j < shape0 Pi" and bH: "\<forall>i \<in> set (nodes H). i < ncols Pi"
    and init: "rebuilt_upto H G Pi 0 A0"
  shows "\<exists>A. fold_err (rebuild_step H G) (map int [1..<Suc k])
               (A0, nodes_at_stage H 1, nodes_at_stage G 1)
             = Inr (A, nodes_at_stage H (int k + 1), nodes_at_stage G (int k + 1))
           \<and> rebuilt_upto H G Pi k A"
proof (induction k)
  case 0
  from init show ?case by simp
next
  case (Suc k)
  then obtain A where
    run: "fold_err (rebuild_step H G) (map int [1..<Suc k])
               (A0, nodes_at_stage H 1, nodes_at_stage G 1)
             = Inr (A, nodes_at_stage H (int k + 1), nodes_at_stage G (int k + 1))"
    and inv: "rebuilt_upto H G Pi k A"
    by blast
  from rebuild_stage_step [OF H G bG bH inv] obtain A' where
    step: "rebuild_stage H G (nodes_at_stage H (int (Suc k))) (nodes_at_stage G (int (Suc k))) A
             = Inr A'"
    and inv': "rebuilt_upto H G Pi (Suc k) A'"
    by blast
  have s: "int k + 1 = int (Suc k)"
    by simp
  have "fold_err (rebuild_step H G) (map int [1..<Suc (Suc k)])
               (A0, nodes_at_stage H 1, nodes_at_stage G 1)
        = rebuild_step H G (int (Suc k))
            (A, nodes_at_stage H (int (Suc k)), nodes_at_stage G (int (Suc k)))"
  proof -
    have "map int [1..<Suc (Suc k)] = map int [1..<Suc k] @ [int (Suc k)]"
      by (simp del: upt_Suc add: upt_Suc_append)
    then show ?thesis
      by (simp only: fold_err_append run [unfolded s] and_then_simps fold_err_single)
  qed
  also have "\<dots> = Inr (A', nodes_at_stage H (int (Suc k) + 1), nodes_at_stage G (int (Suc k) + 1))"
    unfolding rebuild_step_def using step by (simp add: and_then_def)
  finally show ?case
    using inv' by blast
qed

text \<open>
  Claim C3. For trees \<open>H\<close> and \<open>G\<close> that satisfy the data model (root 0 at stage 0, one
  predecessor per other node, one stage above) and a dense matrix \<open>Pi\<close> that has a row
  for every node of \<open>G\<close> and a column for every node of \<open>H\<close>, the forward rebuild pass
  returns a matrix whose entry \<open>(0, 0)\<close> is 1 and whose entry \<open>(j, i)\<close>, for every pair of
  nodes of the same stage between 1 and the horizon, is the product along the ancestor
  chain of the values the backward pass left in \<open>Pi\<close>. \<open>Pi\<close> is arbitrary: the statement
  does not depend on the solver that produced it.
\<close>

theorem rebuild_factorizes:
  assumes "rooted_levelled H" and "rooted_levelled G" and "well_formed Pi"
    and "\<forall>j \<in> set (nodes G). j < shape0 Pi" and "\<forall>i \<in> set (nodes H). i < ncols Pi"
  shows "\<exists>Pi'. rebuild H G T Pi = Inr Pi'
           \<and> index2 Pi' 0 0 = Inr 1
           \<and> (\<forall>j \<in> set (nodes G). \<forall>i \<in> set (nodes H).
                 stage G j = stage H i \<and> 1 \<le> stage G j \<and> stage G j \<le> T \<longrightarrow>
                 index2 Pi' j i = Inr (chain_product H G Pi (nat (stage G j)) j i))"
proof -
  have z: "in_bounds Pi (0, 0)"
    using assms by (simp add: in_bounds_def rooted_levelled_def)
  from setitem2_props [OF assms(3) z, of 1] obtain A0 where
    A0: "setitem2 Pi 0 0 1 = Inr A0" and wf0: "well_formed A0" and sh0: "same_shape A0 Pi"
    and e0: "\<And>a b. entry A0 a b = (if (a, b) = (0, 0) then 1 else entry Pi a b)"
    by blast
  have init: "rebuilt_upto H G Pi 0 A0"
    unfolding rebuilt_upto_def using wf0 sh0 by (auto simp: e0)
  from rebuild_loop [OF assms(1,2,4,5) init, of "nat T"] obtain A where
    run: "fold_err (rebuild_step H G) (map int [1..<Suc (nat T)])
               (A0, nodes_at_stage H 1, nodes_at_stage G 1)
             = Inr (A, nodes_at_stage H (int (nat T) + 1), nodes_at_stage G (int (nat T) + 1))"
    and inv: "rebuilt_upto H G Pi (nat T) A"
    by blast
  have res: "rebuild H G T Pi = Inr A"
    by (simp only: rebuild_def py_range_stages A0 and_then_simps run fst_conv)
  from inv have sh: "same_shape A Pi" and root: "entry A 0 0 = 1"
    and fin: "\<And>j i s. 1 \<le> s \<Longrightarrow> s \<le> int (nat T) \<Longrightarrow> stage_pair H G s (j, i) \<Longrightarrow>
            entry A j i = chain_product H G Pi (nat (stage G j)) j i"
    unfolding rebuilt_upto_def by blast+
  have b: "in_bounds A (j, i)" if "j \<in> set (nodes G)" "i \<in> set (nodes H)" for j i
    using that assms(4,5) sh by (simp add: in_bounds_def same_shape_def)
  have "index2 A 0 0 = Inr 1"
    using b [of 0 0] assms(1,2) root by (simp add: index2_entry rooted_levelled_def)
  moreover have "index2 A j i = Inr (chain_product H G Pi (nat (stage G j)) j i)"
    if "j \<in> set (nodes G)" "i \<in> set (nodes H)" "stage G j = stage H i" "1 \<le> stage G j"
      "stage G j \<le> T" for j i
  proof -
    have "stage_pair H G (stage G j) (j, i)"
      using that by (simp add: stage_pair_def)
    with that have "entry A j i = chain_product H G Pi (nat (stage G j)) j i"
      by (intro fin [of "stage G j"]) simp_all
    with b [OF that(1,2)] show ?thesis
      by (simp add: index2_entry)
  qed
  ultimately show ?thesis
    using res by blast
qed

theorem rebuild_factorizes_witness:
  "rooted_levelled H_two \<and> rooted_levelled G_two \<and> well_formed Pi_two
   \<and> rebuild H_two G_two 2 Pi_two
       = Inr (NDArray 5 [[1, 0, 0, 0, 0], [0, 1 / 2, 1 / 2, 0, 0], [0, 0, 0, 1 / 6, 1 / 8]])
   \<and> chain_product H_two G_two Pi_two 2 2 4 = 1 / 8"
proof -
  have H: "rooted_levelled H_two" and G: "rooted_levelled G_two"
    by (simp_all add: rooted_levelled_def H_two_def G_two_def predecessors_def)
  have wf: "well_formed Pi_two"
    by (simp add: well_formed_def Pi_two_def)
  have bG: "\<forall>j \<in> set (nodes G_two). j < shape0 Pi_two"
    and bH: "\<forall>i \<in> set (nodes H_two). i < ncols Pi_two"
    by (simp_all add: G_two_def H_two_def Pi_two_def shape0_def)
  have 1: "2 \<in> set (nodes G_two)" "4 \<in> set (nodes H_two)"
    by (simp_all add: G_two_def H_two_def)
  have 2: "stage G_two 2 = stage H_two 4 \<and> 1 \<le> stage G_two 2 \<and> stage G_two 2 \<le> 2"
    by (simp add: G_two_def H_two_def)
  from rebuild_factorizes [OF H G wf bG bH, of 2] obtain Pi' where
    r: "rebuild H_two G_two 2 Pi_two = Inr Pi'"
    and e: "index2 Pi' 2 4 = Inr (chain_product H_two G_two Pi_two (nat (stage G_two 2)) 2 4)"
    using 1 2 by blast
  have c: "chain_product H_two G_two Pi_two 2 2 4 = 1 / 8"
    by (simp add: eval_nat_numeral entry_def parent_def predecessors_def Pi_two_def H_two_def
        G_two_def)
  have v: "rebuild H_two G_two 2 Pi_two
       = Inr (NDArray 5 [[1, 0, 0, 0, 0], [0, 1 / 2, 1 / 2, 0, 0], [0, 0, 0, 1 / 6, 1 / 8]])"
    by (simp add: rebuild_def rebuild_step_def rebuild_stage_def rebuild_pair_def multiply_cell_def
        setitem2_def index2_def shape0_def nodes_at_stage_def predecessors_def py_range_def
        upto_rec1 and_then_def Pi_two_def H_two_def G_two_def)
  from H G wf v c show ?thesis
    by (intro conjI)
qed

section \<open>The seeding formula\<close>

























section \<open>Properties of the driver\<close>

lemma not_rejected_Inr: "not_rejected (Inr x)"
  by (simp add: not_rejected_def)

lemma not_rejected_Inl: "e \<noteq> AssertionError \<Longrightarrow> not_rejected (Inl e)"
  by (simp add: not_rejected_def)

lemma not_rejected_and_then:
  "not_rejected r \<Longrightarrow> (\<And>x. not_rejected (f x)) \<Longrightarrow> not_rejected (and_then r f)"
  by (cases r) (simp_all add: and_then_def not_rejected_def)

lemma not_rejected_if:
  "(c \<Longrightarrow> not_rejected a) \<Longrightarrow> (\<not> c \<Longrightarrow> not_rejected b) \<Longrightarrow> not_rejected (if c then a else b)"
  by simp

lemma not_rejected_for_each:
  "(\<And>x. not_rejected (f x)) \<Longrightarrow> not_rejected (for_each f xs)"
  by (induction xs) (simp_all add: not_rejected_Inr not_rejected_and_then)

lemma not_rejected_fold_err:
  "(\<And>x s. not_rejected (f x s)) \<Longrightarrow> not_rejected (fold_err f xs s)"
  by (induction xs arbitrary: s) (simp_all add: not_rejected_Inr not_rejected_and_then)

lemma not_rejected_primitives:
  "not_rejected (index2 A i j)"
  "not_rejected (setitem2 A i j v)"
  "not_rejected (weight T m k)"
  "not_rejected (first_of xs)"
  "not_rejected (last_of xs)"
  "not_rejected (item xs i)"
  "not_rejected (take_rows A idx)"
  "not_rejected (take_cols A idx)"
  "not_rejected (concatenate1 As)"
  "not_rejected (np_multiply A B)"
  "not_rejected (np_max zs)"
  "not_rejected (squared_distance u w)"
  "not_rejected (row_of A i)"
  "not_rejected (assign_row A j cols u)"
  "not_rejected (np_split ys s)"
  by (simp_all add: not_rejected_def index2_def setitem2_def weight_def first_of_def last_of_def
      item_def take_rows_def take_cols_def concatenate1_def np_multiply_def np_max_def
      squared_distance_def row_of_def assign_row_def np_split_def
      split: option.splits list.splits prod.splits)

lemmas not_rejected_intros = not_rejected_Inr not_rejected_Inl not_rejected_and_then not_rejected_if
  not_rejected_for_each not_rejected_fold_err not_rejected_primitives

lemma not_rejected_division_tasks: "not_rejected (division_tasks N P)"
  unfolding division_tasks_def Let_def and_then_def [symmetric]
  by (intro not_rejected_intros) simp_all

lemma not_rejected_collect_ancestor: "not_rejected (collect_ancestor t T v)"
  unfolding collect_ancestor_def by (intro not_rejected_intros)

lemma not_rejected_subtree_m: "not_rejected (subtree_m t H nodesH D_ij Pi children_ni n m)"
  unfolding subtree_m_def Let_def
  by (intro not_rejected_intros not_rejected_collect_ancestor)

lemma not_rejected_solve_subtree:
  "not_rejected (solve_subtree S method lambda_IBP rho pool_sizeMAM children_n b c)"
  unfolding solve_subtree_def Let_def by (intro not_rejected_intros) simp_all

lemma not_rejected_stabilize_m: "not_rejected (stabilize_m epsilon dm i st)"
  unfolding stabilize_m_def Let_def
  by (cases st) (auto intro!: not_rejected_intros)

lemma not_rejected_option:
  "not_rejected a \<Longrightarrow> (\<And>x. not_rejected (f x))
     \<Longrightarrow> not_rejected (case v of None \<Rightarrow> a | Some x \<Rightarrow> f x)"
  by (cases v) simp_all

lemma not_rejected_loop_subtree_n:
  "not_rejected (loop_subtree_n S t G H nodesG nodesH list_m D_ij Pi method lambda_IBP rho epsilon
     pool_sizeMAM n)"
  unfolding loop_subtree_n_def Let_def
  by (intro not_rejected_intros not_rejected_option not_rejected_subtree_m
      not_rejected_collect_ancestor not_rejected_solve_subtree not_rejected_stabilize_m) simp_all

lemma not_rejected_prod:
  "(\<And>a b. not_rejected (f a b)) \<Longrightarrow> not_rejected (case p of (a, b) \<Rightarrow> f a b)"
  by (cases p) simp

lemma not_rejected_seed_pair: "not_rejected (seed_pair H G t n m st)"
  unfolding seed_pair_def seed_children_def
  by (intro not_rejected_prod not_rejected_intros)

lemma not_rejected_seed_stage: "not_rejected (seed_stage ord H G t st)"
  unfolding seed_stage_def Let_def
  by (intro not_rejected_prod not_rejected_intros not_rejected_seed_pair)

lemma not_rejected_init_Pi: "not_rejected (init_Pi is_zero ord H G Pi)"
  unfolding init_Pi_def seed_Pi_def Let_def
  by (intro not_rejected_intros not_rejected_seed_stage)

lemma not_rejected_leaf_distances: "not_rejected (leaf_distances ai wi aj wj)"
  unfolding leaf_distances_def leaf_row_def
  by (intro not_rejected_intros)

lemma not_rejected_write_back: "not_rejected (write_back H n plans list_m st)"
  unfolding write_back_def write_child_def Let_def
  by (intro not_rejected_prod not_rejected_intros)

lemma not_rejected_merge_output: "not_rejected (merge_output H list_n list_m outputs i_n st)"
  unfolding merge_output_def Let_def
  by (intro not_rejected_prod not_rejected_option not_rejected_intros not_rejected_write_back)
    simp

lemma not_rejected_backward_stage:
  "not_rejected (backward_stage env H method lambda_IBP rho epsilon t st)"
  unfolding backward_stage_def Let_def
  by (intro not_rejected_prod not_rejected_intros not_rejected_division_tasks
      not_rejected_loop_subtree_n not_rejected_merge_output)

lemma not_rejected_rebuild: "not_rejected (rebuild H G T Pi)"
  unfolding rebuild_def rebuild_step_def rebuild_stage_def rebuild_pair_def multiply_cell_def
    Let_def
  by (intro not_rejected_prod not_rejected_intros)

lemma not_rejected_reduction_body:
  "not_rejected (reduction_body env H G Pi rho method lambda_IBP)"
  unfolding reduction_body_def
  by (intro not_rejected_prod not_rejected_intros not_rejected_leaf_distances
      not_rejected_backward_stage not_rejected_rebuild)

lemma reduction_tree_supported:
  assumes "method \<in> {''LP'', ''MAM'', ''IBP''}"
  shows "reduction_tree env H G Pi rho method lambda_IBP npool
        = and_then (init_Pi (sum_is_zero env) (set_order env) H G Pi)
            (\<lambda>Pi'. reduction_body env H G Pi' rho method lambda_IBP)"
    and "reduction_tree env H G Pi rho method lambda_IBP npool \<noteq> Inl AssertionError"
proof -
  show eq: "reduction_tree env H G Pi rho method lambda_IBP npool
        = and_then (init_Pi (sum_is_zero env) (set_order env) H G Pi)
            (\<lambda>Pi'. reduction_body env H G Pi' rho method lambda_IBP)"
    using assms by (auto simp: reduction_tree_def)
  have "not_rejected (and_then (init_Pi (sum_is_zero env) (set_order env) H G Pi)
            (\<lambda>Pi'. reduction_body env H G Pi' rho method lambda_IBP))"
    by (intro not_rejected_and_then not_rejected_init_Pi not_rejected_reduction_body)
  then show "reduction_tree env H G Pi rho method lambda_IBP npool \<noteq> Inl AssertionError"
    unfolding eq by (simp add: not_rejected_def)
qed

lemma seeded_rare:
  "seed_Pi remdups H_rare G_single = Inr Pi_rare"
  by (simp add: seed_Pi_def seed_stage_def seed_pair_def seed_children_def np_zeros_def
      setitem2_def np_max_def nodes_at_stage_def py_range_def and_then_def Let_def shape0_def
      H_rare_def G_single_def Pi_rare_def tree_defs)

lemma seeded_mismatch:
  "seed_Pi remdups H_chain G_single = Inr (NDArray 3 [[1, 0, 0], [0, 1, 0]])"
  by (simp add: seed_Pi_def seed_stage_def seed_pair_def seed_children_def np_zeros_def
      setitem2_def np_max_def nodes_at_stage_def py_range_def and_then_def Let_def shape0_def
      H_chain_def G_single_def tree_defs)

lemma example_leaf:
  "leaf_distances [[0, 1]] [[0, 3]] [[0, 1], [0, 2]] [[0, 1], [0, 6]] = Inr (D_rare, [1], [1, 2])"
  by (simp add: leaf_distances_def leaf_row_def squared_distance_def item_def last_of_def
      broadcast_dim_def and_then_def D_rare_def eval_nat_numeral)

lemma example_split: "division_tasks 1 1 = Inr [[0]]"
  by (simp add: division_tasks_def np_split_def py_range_def)

lemma example_write:
  "write_back H_rare 0 [NDArray 2 [[2 / 2001, 1999 / 2001]]] [0] (G_single, Pi_rare)
     = Inr (G_single, NDArray 3 [[1, 0, 0], [0, 2 / 2001, 1999 / 2001]])"
  by (simp add: write_back_def write_child_def assign_row_def row_of_def set_weight_def
      np_round_def rint_def item_def and_then_def Let_def shape0_def
      H_rare_def G_single_def Pi_rare_def successors_def)

lemma example_stage:
  "backward_stage example_env H_rare ''LP'' 25 1000 (1 / 1000) 0
     \<lparr>G_of = G_single, Pi_of = Pi_rare, D_ij_of = D_rare, nodesG_of = [1], nodesH_of = [1, 2],
      ancestors_m = [0], ancestors_n = [0], nb_n = [], nb_m = []\<rparr>
   = Inr \<lparr>G_of = G_single, Pi_of = NDArray 3 [[1, 0, 0], [0, 2 / 2001, 1999 / 2001]],
          D_ij_of = NDArray 1 [[17999 / 2001]], nodesG_of = [0], nodesH_of = [0],
          ancestors_m = [], ancestors_n = [], nb_n = [1], nb_m = [1]\<rparr>"
  by (simp add: backward_stage_def merge_output_def example_env_def example_split first_of_def
      item_def rare_run [unfolded One_nat_def] example_write and_then_def Let_def)

lemma example_rebuild:
  "rebuild H_rare G_single 1 (NDArray 3 [[1, 0, 0], [0, 2 / 2001, 1999 / 2001]])
     = Inr (NDArray 3 [[1, 0, 0], [0, 2 / 2001, 1999 / 2001]])"
  by (simp add: rebuild_def rebuild_step_def rebuild_stage_def rebuild_pair_def multiply_cell_def
      setitem2_def index2_def shape0_def nodes_at_stage_def predecessors_def py_range_def
      and_then_def H_rare_def G_single_def)

lemma example_body:
  "reduction_body example_env H_rare G_single Pi_rare 1000 ''LP'' 25
     = Inr \<lparr>G_reduced = G_single, nested_distance = 17999 / 2001,
            Pi_final = NDArray 3 [[1, 0, 0], [0, 2 / 2001, 1999 / 2001]],
            frontier_G_sizes = [1], frontier_H_sizes = [1]\<rparr>"
proof -
  have G: "find_process_data example_env G_single = ([[0, 1]], [[0, 3]], [1], 1)"
    and H: "find_process_data example_env H_rare
      = ([[0, 1], [0, 2]], [[0, 1], [0, 6]], [1 / 2000, 1999 / 2000], 1)"
    by (simp_all add: example_env_def leaf_paths_def G_single_def H_rare_def)
  have s: "nodes_at_stage H_rare 0 = [0]" "nodes_at_stage G_single 0 = [0]"
    by (simp_all add: nodes_at_stage_def H_rare_def G_single_def)
  show ?thesis
    by (simp add: reduction_body_def G H example_leaf [unfolded One_nat_def] py_range_def s
        example_stage [unfolded One_nat_def] example_rebuild index2_def shape0_def and_then_def)
qed

lemma example_run:
  "reduction_tree example_env H_rare G_single Pi 1000 ''LP'' 25 1
     = Inr \<lparr>G_reduced = G_single, nested_distance = 17999 / 2001,
            Pi_final = NDArray 3 [[1, 0, 0], [0, 2 / 2001, 1999 / 2001]],
            frontier_G_sizes = [1], frontier_H_sizes = [1]\<rparr>"
  if "sum_is_zero example_env Pi"
  using that
  by (simp add: reduction_tree_def init_Pi_def example_env_def seeded_rare and_then_def
      example_body [unfolded example_env_def])

text \<open>
  Claim C7. For every method outside LP, MAM, IBP \<open>reduction_tree\<close> ends in the
  \<open>AssertionError\<close> of its first statement, whatever the other arguments: nothing is
  seeded or computed, and no tree, matrix or distance is returned. For a method among
  the three the check passes: the run is the seeding followed by the body, and it never
  ends in an \<open>AssertionError\<close>.
\<close>

theorem reduction_tree_precondition:
  "(method \<notin> {''LP'', ''MAM'', ''IBP''} \<longrightarrow>
      reduction_tree env H G Pi rho method lambda_IBP npool = Inl AssertionError)
   \<and> (method \<in> {''LP'', ''MAM'', ''IBP''} \<longrightarrow>
      reduction_tree env H G Pi rho method lambda_IBP npool
        = and_then (init_Pi (sum_is_zero env) (set_order env) H G Pi)
            (\<lambda>Pi'. reduction_body env H G Pi' rho method lambda_IBP)
      \<and> reduction_tree env H G Pi rho method lambda_IBP npool \<noteq> Inl AssertionError)"
proof (intro conjI impI)
  assume "method \<notin> {''LP'', ''MAM'', ''IBP''}"
  then show "reduction_tree env H G Pi rho method lambda_IBP npool = Inl AssertionError"
    by (simp add: reduction_tree_def)
next
  assume "method \<in> {''LP'', ''MAM'', ''IBP''}"
  then show "reduction_tree env H G Pi rho method lambda_IBP npool
        = and_then (init_Pi (sum_is_zero env) (set_order env) H G Pi)
            (\<lambda>Pi'. reduction_body env H G Pi' rho method lambda_IBP)"
    by (rule reduction_tree_supported)
next
  assume "method \<in> {''LP'', ''MAM'', ''IBP''}"
  then show "reduction_tree env H G Pi rho method lambda_IBP npool \<noteq> Inl AssertionError"
    by (rule reduction_tree_supported)
qed

theorem reduction_tree_precondition_witness:
  "''Sinkhorn'' \<notin> {''LP'', ''MAM'', ''IBP''}
   \<and> reduction_tree example_env H_rare G_single (np_zeros 2 2) 1000 ''Sinkhorn'' 25 1
       = Inl AssertionError
   \<and> ''LP'' \<in> {''LP'', ''MAM'', ''IBP''}
   \<and> reduction_tree example_env H_rare G_single (np_zeros 2 2) 1000 ''LP'' 25 1
       = Inr \<lparr>G_reduced = G_single, nested_distance = 17999 / 2001,
            Pi_final = NDArray 3 [[1, 0, 0], [0, 2 / 2001, 1999 / 2001]],
            frontier_G_sizes = [1], frontier_H_sizes = [1]\<rparr>"
proof -
  have bad: "''Sinkhorn'' \<notin> {''LP'', ''MAM'', ''IBP''}"
    and good: "''LP'' \<in> {''LP'', ''MAM'', ''IBP''}"
    by simp_all
  from reduction_tree_precondition [of "''Sinkhorn''" example_env H_rare G_single "np_zeros 2 2"
      1000 25 1] bad
  have "reduction_tree example_env H_rare G_single (np_zeros 2 2) 1000 ''Sinkhorn'' 25 1
       = Inl AssertionError"
    by blast
  moreover have "sum_is_zero example_env (np_zeros 2 2)"
    by (simp add: example_env_def np_sum_def entries_def np_zeros_def eval_nat_numeral)
  then have "reduction_tree example_env H_rare G_single (np_zeros 2 2) 1000 ''LP'' 25 1
       = Inr \<lparr>G_reduced = G_single, nested_distance = 17999 / 2001,
            Pi_final = NDArray 3 [[1, 0, 0], [0, 2 / 2001, 1999 / 2001]],
            frontier_G_sizes = [1], frontier_H_sizes = [1]\<rparr>"
    by (rule example_run)
  ultimately show ?thesis
    using bad good by (intro conjI)
qed

text \<open>
  Claim C6, amended. \<open>reduction_tree\<close> does not compare the horizons of \<open>H\<close> and \<open>G\<close>:
  with a supported method, trees of different horizons pass the precondition check, and
  the run goes on with the seeding and the body. It never ends in an \<open>AssertionError\<close>.
\<close>

theorem mismatched_horizons_not_rejected:
  assumes "np_max (map (stage H) (nodes H)) \<noteq> np_max (map (stage G) (nodes G))"
    and "method \<in> {''LP'', ''MAM'', ''IBP''}"
  shows "reduction_tree env H G Pi rho method lambda_IBP npool \<noteq> Inl AssertionError
         \<and> reduction_tree env H G Pi rho method lambda_IBP npool
             = and_then (init_Pi (sum_is_zero env) (set_order env) H G Pi)
                 (\<lambda>Pi'. reduction_body env H G Pi' rho method lambda_IBP)"
  using reduction_tree_supported [OF assms(2)] by blast

lemma horizons_mismatch:
  "np_max (map (stage H_chain) (nodes H_chain)) = Inr 2"
  "np_max (map (stage G_single) (nodes G_single)) = Inr 1"
  by (simp_all add: np_max_def H_chain_def G_single_def)

lemma zeros_sum: "sum_is_zero example_env (np_zeros 2 2)"
  by (simp add: example_env_def np_sum_def entries_def np_zeros_def eval_nat_numeral)

theorem mismatched_horizons_not_rejected_witness:
  "np_max (map (stage H_chain) (nodes H_chain)) \<noteq> np_max (map (stage G_single) (nodes G_single))
   \<and> ''LP'' \<in> {''LP'', ''MAM'', ''IBP''}
   \<and> reduction_tree example_env H_chain G_single (np_zeros 2 2) 1000 ''LP'' 25 1
        \<noteq> Inl AssertionError"
proof -
  have ne: "np_max (map (stage H_chain) (nodes H_chain))
      \<noteq> np_max (map (stage G_single) (nodes G_single))"
    by (simp add: horizons_mismatch)
  have m: "''LP'' \<in> {''LP'', ''MAM'', ''IBP''}"
    by simp
  from mismatched_horizons_not_rejected [OF ne m, of example_env "np_zeros 2 2" 1000 25 1]
  show ?thesis
    using ne m by blast
qed

text \<open>
  Claim C6 as stated fails: \<open>H_chain\<close> has horizon 2 and \<open>G_single\<close> horizon 1, yet the
  call is not rejected; the transport matrix is seeded and the body runs on it.
\<close>

theorem mismatched_horizons_counterexample:
  "np_max (map (stage H_chain) (nodes H_chain)) = Inr 2
   \<and> np_max (map (stage G_single) (nodes G_single)) = Inr 1
   \<and> init_Pi (sum_is_zero example_env) remdups H_chain G_single (np_zeros 2 2)
       = Inr (NDArray 3 [[1, 0, 0], [0, 1, 0]])
   \<and> reduction_tree example_env H_chain G_single (np_zeros 2 2) 1000 ''LP'' 25 1
       = reduction_body example_env H_chain G_single (NDArray 3 [[1, 0, 0], [0, 1, 0]])
           1000 ''LP'' 25"
proof -
  have i: "init_Pi (sum_is_zero example_env) remdups H_chain G_single (np_zeros 2 2)
      = Inr (NDArray 3 [[1, 0, 0], [0, 1, 0]])"
    by (simp add: init_Pi_def zeros_sum seeded_mismatch)
  have "set_order example_env = remdups"
    by (simp add: example_env_def)
  then have "reduction_tree example_env H_chain G_single (np_zeros 2 2) 1000 ''LP'' 25 1
       = reduction_body example_env H_chain G_single (NDArray 3 [[1, 0, 0], [0, 1, 0]])
           1000 ''LP'' 25"
    by (simp add: reduction_tree_def i and_then_def)
  with horizons_mismatch i show ?thesis
    by (intro conjI)
qed



section \<open>Frame property of the subtree reducer\<close>

lemma framesI:
  assumes "\<And>h r h'. k \<le> length h \<Longrightarrow> m h = (r, h') \<Longrightarrow>
     length h \<le> length h' \<and> take k h' = take k h \<and> (\<forall>x. r = Inr x \<longrightarrow> Q x)"
  shows "frames k m Q"
  unfolding frames_def using assms by (auto split: prod.splits sum.splits)

lemma framesD:
  assumes "frames k m Q" and "k \<le> length h" and "m h = (r, h')"
  shows "length h \<le> length h'" and "take k h' = take k h" and "r = Inr x \<Longrightarrow> Q x"
  using assms unfolding frames_def by (auto split: prod.splits sum.splits)

lemma frames_weaken: "frames k m Q \<Longrightarrow> (\<And>x. Q x \<Longrightarrow> R x) \<Longrightarrow> frames k m R"
  unfolding frames_def by (auto split: prod.splits sum.splits)

lemma frames_finish: "Q x \<Longrightarrow> frames k (finish x) Q"
  by (simp add: frames_def finish_def)

lemma frames_raise: "frames k (raise e) Q"
  by (simp add: frames_def raise_def)

lemma frames_pure_step: "frames k (pure_step r) (\<lambda>x. True)"
  by (simp add: frames_def pure_step_def split: sum.splits)

lemma frames_alloc: "frames k (alloc v) (\<lambda>r. k \<le> r)"
  by (simp add: frames_def alloc_def)

lemma frames_get:
  "frames k (get_matrix r) (\<lambda>x. True)"
  "frames k (get_vector r) (\<lambda>x. True)"
  "frames k (get_graph r) (\<lambda>x. True)"
  by (simp_all add: frames_def get_matrix_def get_vector_def get_graph_def split: obj.splits)

lemma frames_set_vector_item:
  "k \<le> r \<Longrightarrow> frames k (set_vector_item r i x) (\<lambda>u. True)"
  by (simp add: frames_def set_vector_item_def split: obj.splits)

lemma frames_then_run:
  assumes "frames k m Q" and "\<And>x. Q x \<Longrightarrow> frames k (f x) R"
  shows "frames k (then_run m f) R"
proof (rule framesI)
  fix h r h'
  assume k: "k \<le> length h" and run: "then_run m f h = (r, h')"
  obtain r1 h1 where m: "m h = (r1, h1)"
    by (cases "m h")
  note 1 = framesD [OF assms(1) k m]
  show "length h \<le> length h' \<and> take k h' = take k h \<and> (\<forall>x. r = Inr x \<longrightarrow> R x)"
  proof (cases r1)
    case (Inl e)
    with run m 1 show ?thesis
      by (auto simp: then_run_def)
  next
    case (Inr x)
    with run m have f: "f x h1 = (r, h')"
      by (simp add: then_run_def)
    from 1(3) [OF Inr] have "frames k (f x) R"
      by (rule assms(2))
    from framesD [OF this _ f] k 1(1,2) show ?thesis
      by auto
  qed
qed

lemma frames_for_each_run:
  assumes "\<And>x. frames k (f x) (\<lambda>y. True)"
  shows "frames k (for_each_run f xs) (\<lambda>ys. True)"
  by (induction xs) (auto intro!: frames_finish frames_then_run assms)

lemma frames_for_each_alloc:
  "frames k (for_each_run (\<lambda>P. alloc (g P)) xs) (\<lambda>ys. True)"
  by (intro frames_for_each_run frames_weaken [OF frames_alloc]) simp

lemma frames_fold_run:
  assumes "\<And>x s. frames k (f x s) (\<lambda>y. True)"
  shows "frames k (fold_run f xs s) (\<lambda>y. True)"
  by (induction xs arbitrary: s) (auto intro!: frames_finish frames_then_run assms)

lemmas frames_any = frames_weaken [where R = "\<lambda>x. True", OF _ TrueI]

lemma frames_subtree_m_run:
  "frames k (subtree_m_run t H_ref nodesH D_ref Pi_ref children_ni n m) (\<lambda>x. True)"
  unfolding subtree_m_run_def Let_def
  by (intro frames_then_run [where Q = "\<lambda>x. True"] frames_get frames_pure_step frames_finish
      frames_any [OF frames_alloc] TrueI)

lemma frames_stabilize_m_run:
  assumes "k \<le> dists_ref"
  shows "frames k (stabilize_m_run epsilon dist_matrices dists_ref i_m plans) (\<lambda>x. True)"
  unfolding stabilize_m_run_def
  by (intro frames_then_run [where Q = "\<lambda>x. True"] frames_get frames_pure_step frames_finish
      frames_any [OF frames_alloc] frames_set_vector_item assms TrueI)

lemma frames_option:
  "frames k a Q \<Longrightarrow> (\<And>x. frames k (f x) Q)
     \<Longrightarrow> frames k (case v of None \<Rightarrow> a | Some x \<Rightarrow> f x) Q"
  by (cases v) simp_all

lemma frames_loop_subtree_n_run:
  "frames k (loop_subtree_n_run S t G_ref H_ref nodesG nodesH list_m D_ref Pi_ref method lambda_IBP
     rho epsilon pool_sizeMAM n) (\<lambda>x. True)"
  unfolding loop_subtree_n_run_def Let_def
proof (rule frames_then_run [OF frames_alloc])
  fix dists_ref :: ref
  assume fresh: "k \<le> dists_ref"
  show "frames k
     (then_run (get_graph G_ref) (\<lambda>G.
        then_run (for_each_run (subtree_m_run t H_ref nodesH D_ref Pi_ref
              [j \<leftarrow> [0..<length nodesG]. nodesG ! j \<in> set (successors G n)] n) list_m) (\<lambda>per_m.
        then_run (pure_step (collect_ancestor t G n)) (\<lambda>anc_n.
        then_run (for_each_run get_vector (map fst per_m)) (\<lambda>b.
        then_run (for_each_run get_matrix (map (fst \<circ> snd \<circ> snd) per_m)) (\<lambda>c.
        then_run (pure_step (solve_subtree S method lambda_IBP rho pool_sizeMAM (successors G n) b c))
          (\<lambda>chosen.
        case chosen of
          None \<Rightarrow> raise UnboundLocalError
        | Some plans \<Rightarrow>
            then_run (for_each_run (\<lambda>P. alloc (Matrix P)) plans) (\<lambda>refs.
            then_run (fold_run (stabilize_m_run epsilon (map (fst \<circ> snd) per_m) dists_ref)
                        [0..<length list_m] refs) (\<lambda>refs'.
            finish \<lparr>Pi_k_refs = refs', D_ij_t_ref = dists_ref,
                     ancestor_m_list = concat (map (snd \<circ> snd \<circ> snd) per_m),
                     ancestor_n_list = anc_n\<rparr>))))))))) (\<lambda>x. True)"
    by (intro frames_then_run [where Q = "\<lambda>x. True"] frames_option frames_raise frames_get
        frames_pure_step frames_finish frames_for_each_run frames_for_each_alloc frames_fold_run
        frames_subtree_m_run frames_stabilize_m_run fresh TrueI)
qed

text \<open>
  Claim C8. Every invocation of \<open>_loop_subtree_n\<close>, whether it returns or raises, leaves
  every object that existed before the call as it was: the store after the call begins
  with the store before it. In particular the transport matrix \<open>Pi\<close>, the distance
  matrix \<open>D_ij\<close> and the trees \<open>G\<close> and \<open>H\<close> are unchanged; the function only
  allocates the arrays it returns.
\<close>

theorem loop_subtree_n_frame:
  "length h \<le> length (snd (loop_subtree_n_run S t G_ref H_ref nodesG nodesH list_m D_ref Pi_ref
      method lambda_IBP rho epsilon pool_sizeMAM n h))
   \<and> take (length h) (snd (loop_subtree_n_run S t G_ref H_ref nodesG nodesH list_m D_ref Pi_ref
      method lambda_IBP rho epsilon pool_sizeMAM n h)) = h"
proof -
  obtain r h' where run: "loop_subtree_n_run S t G_ref H_ref nodesG nodesH list_m D_ref Pi_ref
      method lambda_IBP rho epsilon pool_sizeMAM n h = (r, h')"
    by (cases "loop_subtree_n_run S t G_ref H_ref nodesG nodesH list_m D_ref Pi_ref
      method lambda_IBP rho epsilon pool_sizeMAM n h")
  from framesD(1,2) [OF frames_loop_subtree_n_run order_refl run]
  show ?thesis
    unfolding run by simp
qed

lemmas heap_defs = finish_def raise_def pure_step_def then_run_def alloc_def get_matrix_def
  get_vector_def get_graph_def set_vector_item_def

lemma rare_heap_run:
  "loop_subtree_n_run S 0 0 1 [1] [1, 2] [0] 2 3 method lambda_IBP rho (1 / 1000) pool_sizeMAM 0
     rare_heap
   = (Inr \<lparr>Pi_k_refs = [11], D_ij_t_ref = 4, ancestor_m_list = [], ancestor_n_list = []\<rparr>,
      rare_heap @
      [Vector [17999 / 2001], Vector [1 / 2000, 1999 / 2000], Matrix (NDArray 2 [[4, 9]]),
       Matrix (NDArray 2 [[4, 9]]), Matrix (NDArray 2 [[4, 9]]),
       Matrix (NDArray 2 [[1 / 2000, 1999 / 2000]]),
       Matrix (NDArray 2 [[1 / 1000, 1999 / 2000]]),
       Matrix (NDArray 2 [[2 / 2001, 1999 / 2001]])])"
  by (simp add: loop_subtree_n_run_def subtree_m_run_def stabilize_m_run_def solve_subtree_def
      heap_defs item_def rare_heap_def G_single_def H_rare_def D_rare_def Pi_rare_def array_defs
      tree_defs and_then_def Let_def)

theorem loop_subtree_n_frame_witness:
  "fst (loop_subtree_n_run no_solvers 0 0 1 [1] [1, 2] [0] 2 3 ''LP'' 25 1000 (1 / 1000) 1 0
          rare_heap)
     = Inr \<lparr>Pi_k_refs = [11], D_ij_t_ref = 4, ancestor_m_list = [], ancestor_n_list = []\<rparr>
   \<and> take 4 (snd (loop_subtree_n_run no_solvers 0 0 1 [1] [1, 2] [0] 2 3 ''LP'' 25 1000 (1 / 1000)
          1 0 rare_heap))
     = [Graph G_single, Graph H_rare, Matrix D_rare, Matrix Pi_rare]
   \<and> snd (loop_subtree_n_run no_solvers 0 0 1 [1] [1, 2] [0] 2 3 ''LP'' 25 1000 (1 / 1000)
          1 0 rare_heap) ! 11
     = Matrix (NDArray 2 [[2 / 2001, 1999 / 2001]])"
proof -
  have len: "length rare_heap = 4"
    by (simp add: rare_heap_def)
  from loop_subtree_n_frame [of rare_heap no_solvers 0 0 1 "[1]" "[1, 2]" "[0]" 2 3 "''LP''" 25
      1000 "1 / 1000" 1 0]
  have "take 4 (snd (loop_subtree_n_run no_solvers 0 0 1 [1] [1, 2] [0] 2 3 ''LP'' 25 1000
          (1 / 1000) 1 0 rare_heap))
     = [Graph G_single, Graph H_rare, Matrix D_rare, Matrix Pi_rare]"
    unfolding len by (simp add: rare_heap_def)
  moreover have "snd (loop_subtree_n_run no_solvers 0 0 1 [1] [1, 2] [0] 2 3 ''LP'' 25 1000
          (1 / 1000) 1 0 rare_heap) ! 11
     = Matrix (NDArray 2 [[2 / 2001, 1999 / 2001]])"
    unfolding rare_heap_run by (simp add: rare_heap_def)
  moreover have "fst (loop_subtree_n_run no_solvers 0 0 1 [1] [1, 2] [0] 2 3 ''LP'' 25 1000
          (1 / 1000) 1 0 rare_heap)
     = Inr \<lparr>Pi_k_refs = [11], D_ij_t_ref = 4, ancestor_m_list = [], ancestor_n_list = []\<rparr>"
    unfolding rare_heap_run by simp
  ultimately show ?thesis
    by (intro conjI)
qed

end
